theory Spec2Isabelle
  imports Complex_Main "HOL-Library.Word" "HOL-Library.Char_ord" "HOL-Library.List_Lexorder"
begin

unbundle bit_operations_syntax

section \<open>sparsebak: data model\<close>

text \<open>
  A shallow embedding of the parts of \<^verbatim>\<open>sparsebak.py\<close> that decide the chunk
  addressing, the delta map, the send loop, the dedup session limit, pruning and the
  receive loop. Python integers are \<open>int\<close>, byte strings are lists of 8-bit words,
  text is \<open>string\<close>, and every \<^verbatim>\<open>raise\<close> or \<^verbatim>\<open>x_it\<close> is a value
  of \<open>py_error\<close> on the left of a sum.
\<close>

type_synonym byte = "8 word"
type_synonym bytes = "byte list"

text \<open>
  The exceptions the modelled code can raise. Messages keep the fixed text of the source;
  values formatted into a message are left out. \<open>ZlibError\<close> is \<^verbatim>\<open>zlib.error\<close>,
  \<open>SystemExit\<close> is \<^verbatim>\<open>x_it(code, text)\<close>.
\<close>

datatype py_error =
    ZeroDivisionError
  | IndexError
  | KeyError string
  | ValueError string
  | BufferError string
  | NotImplementedError string
  | RuntimeError string
  | UnboundLocalError string
  | ZlibError
  | OSError string
  | SystemExit int string

text \<open>Constants / Globals of the program.\<close>

definition bs :: int where
  "bs = 512"

definition lvm_block_factor :: int where
  "lvm_block_factor = 128"

definition bkchunksize :: int where
  "bkchunksize = 1 * lvm_block_factor * bs"

definition max_address :: int where
  "max_address = 0xffffffffffffffff"

text \<open>
  \<^verbatim>\<open>a // b\<close> and \<^verbatim>\<open>a % b\<close>: Python floors, as \<open>div\<close> and \<open>mod\<close> on
  \<open>int\<close> do, and raises on a zero divisor, where HOL returns a value.
\<close>

definition py_floordiv :: "int \<Rightarrow> int \<Rightarrow> py_error + int" where
  "py_floordiv a b = (if b = 0 then Inl ZeroDivisionError else Inr (a div b))"

definition py_mod :: "int \<Rightarrow> int \<Rightarrow> py_error + int" where
  "py_mod a b = (if b = 0 then Inl ZeroDivisionError else Inr (a mod b))"

text \<open>\<^verbatim>\<open>xs[:n]\<close>: a negative stop counts from the end of the list.\<close>

definition py_slice_to :: "'a list \<Rightarrow> int \<Rightarrow> 'a list" where
  "py_slice_to xs n =
     (if 0 \<le> n then take (nat n) xs else take (nat (int (length xs) + n)) xs)"

text \<open>The persisted fields of a session (class \<^verbatim>\<open>Ses\<close>) that the modelled code reads.\<close>

record ses =
  ses_name :: string
  ses_volsize :: int
  ses_format :: string
  ses_sequence :: int
  ses_previous :: string

text \<open>
  Class \<^verbatim>\<open>Volume\<close>: \<open>sessions\<close> is the dict from session name to session (an
  association list, looked up with \<open>map_of\<close>),
  \<open>sesnames\<close> the ordered list of names, \<open>volsize\<close> the size of the last session,
  \<open>vol_first\<close> and \<open>vol_last\<close> the fields \<^verbatim>\<open>first\<close> and \<^verbatim>\<open>last\<close>
  (\<open>None\<close> as in Python).
\<close>

record volume =
  vol_name :: string
  volsize :: int
  vol_first :: "string option"
  vol_last :: "string option"
  sesnames :: "string list"
  sessions :: "(string \<times> ses) list"

text \<open>
  Class \<^verbatim>\<open>ArchiveSet\<close>: the chunk size, the configured volumes (a dict, here an
  association list) and the date-sorted list of all sessions, each named by its volume
  and session name.
\<close>

record archive_set =
  chunksize :: int
  compression :: string
  compr_level :: string
  vols :: "(string \<times> volume) list"
  allsessions :: "(string \<times> string) list"

text \<open>
  \<^verbatim>\<open>ArchiveSet.__init__\<close> before a configuration file exists: the defaults.
\<close>

definition new_archive_set :: archive_set where
  "new_archive_set =
     \<lparr>chunksize = bkchunksize, compression = ''zlib'', compr_level = ''4'',
      vols = [], allsessions = []\<rparr>"

text \<open>
  \<^verbatim>\<open>Volume.__init__\<close> for a volume with no \<^verbatim>\<open>volinfo\<close> and no sessions:
  \<^verbatim>\<open>volsize\<close> is 0 then.
\<close>

definition new_volume :: "string \<Rightarrow> volume" where
  "new_volume name =
     \<lparr>vol_name = name, volsize = 0, vol_first = None, vol_last = None, sesnames = [],
      sessions = []\<rparr>"

section \<open>Chunk addressing and the size of the delta map\<close>

text \<open>
  \<^verbatim>\<open>Volume.mapsize(self, volume_size=None)\<close>: the last session's size stands in when
  the argument is \<^verbatim>\<open>None\<close> or 0 (\<^verbatim>\<open>if not volume_size\<close>).
\<close>

definition mapsize :: "archive_set \<Rightarrow> volume \<Rightarrow> int option \<Rightarrow> py_error + int" where
  "mapsize archive self volume_size =
     (let volume_size' =
            (case volume_size of
               None \<Rightarrow> volsize self
             | Some v \<Rightarrow> if v = 0 then volsize self else v)
      in case py_floordiv volume_size' (chunksize archive) of
           Inl e \<Rightarrow> Inl e
         | Inr q \<Rightarrow> Inr (q div 8 + 1))"

text \<open>\<^verbatim>\<open>last_chunk_addr(volsize, chunksize)\<close>.\<close>

definition last_chunk_addr :: "int \<Rightarrow> int \<Rightarrow> py_error + int" where
  "last_chunk_addr vsize csize =
     (case py_mod (vsize - 1) csize of
        Inl e \<Rightarrow> Inl e
      | Inr r \<Rightarrow> Inr ((vsize - 1) - r))"

text \<open>
  The size the specification gives for the delta map: the ceiling of the real quotient
  \<open>volsize / chunksize / 8\<close>, plus one.
\<close>

definition spec_mapsize :: "int \<Rightarrow> int \<Rightarrow> int" where
  "spec_mapsize vsize csize = \<lceil>real_of_int vsize / real_of_int csize / 8\<rceil> + 1"

section \<open>The send-all threshold of send_volume\<close>

text \<open>
  Lines 842--857 of \<^verbatim>\<open>send_volume\<close>: \<open>send_all\<close> is
  \<^verbatim>\<open>len(vol.sessions) == 0\<close>, \<open>snap2size\<close> the size of the \<^verbatim>\<open>.tock\<close>
  snapshot, \<open>prior_size\<close> is \<^verbatim>\<open>vol.volsize\<close>.
\<close>

definition sendall_addr :: "bool \<Rightarrow> int \<Rightarrow> int \<Rightarrow> int \<Rightarrow> py_error + int" where
  "sendall_addr send_all snap2size prior_size csize =
     (if send_all then Inr 0
      else
        case last_chunk_addr prior_size csize of
          Inl e \<Rightarrow> Inl e
        | Inr lca \<Rightarrow>
            let next_chunk_addr = lca + csize in
            if prior_size > snap2size then Inr (snap2size + 1)
            else if snap2size - 1 \<ge> next_chunk_addr then Inr next_chunk_addr
            else Inr (snap2size + 1))"

text \<open>
  The threshold in the words of the specification: 0 for the first session; the first
  chunk offset beyond the prior size when the volume is larger than before; otherwise
  \<open>volsize + 1\<close>.
\<close>

definition spec_send_all_from :: "bool \<Rightarrow> int \<Rightarrow> int \<Rightarrow> int \<Rightarrow> int" where
  "spec_send_all_from first_session vsize prior csize =
     (if first_session then 0
      else if vsize > prior then ((prior - 1) - (prior - 1) mod csize) + csize
      else vsize + 1)"

section \<open>The session list of the 16-bit dedup indexes\<close>

text \<open>
  \<^verbatim>\<open>init_dedup_index4\<close> and \<^verbatim>\<open>init_dedup_index5\<close> both set \<^verbatim>\<open>ses_w = 2\<close> and
  index \<^verbatim>\<open>aset.allsessions[:2**(ses_w*8)-(len(aset.vols))-1]\<close>.
\<close>

definition ses_w :: nat where
  "ses_w = 2"

definition init_dedup_index4_sessions :: "archive_set \<Rightarrow> (string \<times> string) list" where
  "init_dedup_index4_sessions aset =
     py_slice_to (allsessions aset) (2 ^ (ses_w * 8) - int (length (vols aset)) - 1)"

definition init_dedup_index5_sessions :: "archive_set \<Rightarrow> (string \<times> string) list" where
  "init_dedup_index5_sessions aset =
     py_slice_to (allsessions aset) (2 ^ (ses_w * 8) - int (length (vols aset)) - 1)"

section \<open>arch-init: the chunk factor\<close>

text \<open>
  Lines 356--363 of \<^verbatim>\<open>arch_init\<close>, reached when no earlier check has exited.
  \<open>chfactor\<close> is \<^verbatim>\<open>options.chfactor\<close> (\<^verbatim>\<open>type=int\<close>, \<^verbatim>\<open>None\<close> when the
  option is absent). \<open>Inr aset'\<close> is the archive set on which \<^verbatim>\<open>save_conf\<close> ran;
  \<open>Inl\<close> is the exit before it.
\<close>

definition arch_init_chfactor :: "int option \<Rightarrow> archive_set \<Rightarrow> py_error + archive_set" where
  "arch_init_chfactor chfactor aset =
     (case chfactor of
        None \<Rightarrow> Inr aset
      | Some n \<Rightarrow>
          if n = 0 then Inr aset
          else
            let aset' = aset\<lparr>chunksize := n * bkchunksize\<rparr> in
            if chunksize aset' > 16 * 1024 * 1024
            then Inl (SystemExit 1 ''Requested chunk size not supported.'')
            else Inr aset')"

section \<open>Pruning\<close>

text \<open>
  \<^verbatim>\<open>xs.index(x)\<close>: the first position of \<open>x\<close>, \<open>None\<close> where Python raises
  ValueError.
\<close>

fun py_index :: "'a list \<Rightarrow> 'a \<Rightarrow> nat option" where
  "py_index [] x = None"
| "py_index (y # ys) x = (if x = y then Some 0 else map_option Suc (py_index ys x))"

text \<open>\<^verbatim>\<open>str.strip()\<close> and \<^verbatim>\<open>str.lower()\<close> on ASCII text.\<close>

definition isspace :: "char \<Rightarrow> bool" where
  "isspace c = ((of_char c :: nat) \<in> {9, 10, 11, 12, 13, 28, 29, 30, 31, 32})"

definition strip :: "string \<Rightarrow> string" where
  "strip s = rev (dropWhile isspace (rev (dropWhile isspace s)))"

definition lower_char :: "char \<Rightarrow> char" where
  "lower_char c =
     (if 65 \<le> (of_char c :: nat) \<and> (of_char c :: nat) \<le> 90
      then char_of ((of_char c :: nat) + 32) else c)"

definition lower :: "string \<Rightarrow> string" where
  "lower s = map lower_char s"

text \<open>
  \<^verbatim>\<open>Volume.delete_session(self, sname)\<close>. The session is taken out of the volume and
  out of the archive's list of all sessions; the name of the session after it is
  returned. Every lookup that raises in Python is an error here.
\<close>

definition delete_session :: "archive_set \<Rightarrow> volume \<Rightarrow> string \<Rightarrow> py_error + (archive_set \<times> volume \<times> string)" where
  "delete_session archive self sname =
     (case map_of (sessions self) sname of
        None \<Rightarrow> Inl (KeyError sname)
      | Some s \<Rightarrow>
          if Some sname = vol_last self
          then Inl (NotImplementedError ''Cannot delete last session'')
          else
            (case py_index (sesnames self) sname of
               None \<Rightarrow> Inl (ValueError ''is not in list'')
             | Some index \<Rightarrow>
                 if \<not> index + 1 < length (sesnames self) then Inl IndexError
                 else
                   let affected = sesnames self ! (index + 1) in
                   (case map_of (sessions self) affected of
                      None \<Rightarrow> Inl (KeyError affected)
                    | Some a \<Rightarrow>
                        let sessions1 =
                              map (\<lambda>(k, v). if k = affected
                                     then (k, v\<lparr>ses_previous := ses_previous s\<rparr>) else (k, v))
                                (sessions self);
                            first1 = (if index = 0 then Some (sesnames self ! 1) else vol_first self);
                            sesnames1 = take index (sesnames self) @ drop (index + 1) (sesnames self);
                            sessions2 = filter (\<lambda>(k, v). k \<noteq> sname) sessions1
                        in
                        (case py_index (allsessions archive) (vol_name self, sname) of
                           None \<Rightarrow> Inl (ValueError ''is not in list'')
                         | Some i \<Rightarrow>
                             Inr (archive\<lparr>allsessions := take i (allsessions archive)
                                                          @ drop (i + 1) (allsessions archive)\<rparr>,
                                  self\<lparr>sessions := sessions2, vol_first := first1,
                                       sesnames := sesnames1\<rparr>,
                                  affected)))))"

text \<open>
  The sessions \<^verbatim>\<open>prune_sessions\<close> selects, lines 1440--1467. \<open>t2\<close> is empty when one
  date-time was given. In the range case \<^verbatim>\<open>start\<close> stays unbound when no session
  is at or after \<open>t1\<close>.
\<close>

definition select_to_prune :: "bool \<Rightarrow> string \<Rightarrow> string \<Rightarrow> string list \<Rightarrow> py_error + string list" where
  "select_to_prune allbefore t1 t2 sessions' =
     (if allbefore then Inr (takeWhile (\<lambda>s. \<not> s \<ge> t1) sessions')
      else if t2 = [] then Inr (if t1 \<in> set sessions' then [t1] else [])
      else
        let start =
              (if t1 \<in> set sessions' then py_index sessions' t1
               else case find (\<lambda>s. s > t1) sessions' of
                      None \<Rightarrow> None
                    | Some s \<Rightarrow> py_index sessions' s);
            end' =
              (if t2 \<in> set sessions'
               then (case py_index sessions' t2 of None \<Rightarrow> 0 | Some i \<Rightarrow> i + 1)
               else case find (\<lambda>s. s < t2) (rev sessions') of
                      None \<Rightarrow> 0
                    | Some s \<Rightarrow> (case py_index sessions' s of None \<Rightarrow> 0 | Some i \<Rightarrow> i + 1))
        in case start of
             None \<Rightarrow> Inl (UnboundLocalError ''start'')
           | Some i \<Rightarrow> Inr (drop i (take end' sessions')))"

text \<open>
  What \<^verbatim>\<open>prune_sessions\<close> ends with: an early \<^verbatim>\<open>return\<close> after printing a
  message, or the call \<^verbatim>\<open>merge_sessions(datavol, to_prune, target_s, clear_sources=True)\<close>,
  its last statement and the only one that changes the volume or the archive.
\<close>

datatype prune_result = NoPrune string | Prune "string list" string

text \<open>
  \<^verbatim>\<open>prune_sessions(datavol, times)\<close> on the volume \<^verbatim>\<open>aset.vols[datavol]\<close>;
  \<open>dtimes\<close> is the argument \<^verbatim>\<open>times\<close>.
  \<open>allbefore\<close> and \<open>unattended\<close> are the options, \<open>strptime_ok\<close> says which texts
  \<^verbatim>\<open>datetime.strptime(dt, "%Y%m%d-%H%M%S")\<close> accepts, \<open>ans\<close> is what the user types
  when asked.
\<close>

definition prune_sessions :: "bool \<Rightarrow> bool \<Rightarrow> (string \<Rightarrow> bool) \<Rightarrow> string \<Rightarrow> volume \<Rightarrow> string list \<Rightarrow> py_error + prune_result" where
  "prune_sessions allbefore unattended strptime_ok ans volume' dtimes =
     (if \<not> list_all strptime_ok dtimes
      then Inl (ValueError ''time data does not match format'')
      else
        case dtimes of
          [] \<Rightarrow> Inl IndexError
        | time0 # _ \<Rightarrow>
            let t1 = ''S_'' @ strip time0;
                t2 = (if length dtimes > 1 then ''S_'' @ strip (dtimes ! 1) else [])
            in
            if length dtimes > 1 \<and> t2 \<le> t1
            then Inl (SystemExit 1 ''Error: second date-time must be later than first.'')
            else
              let sessions' = sesnames volume' in
              if length sessions' < 2 then Inr (NoPrune ''  No extra sessions to prune.'')
              else if t1 \<ge> last sessions' \<or> t2 \<ge> last sessions'
              then Inr (NoPrune ''  Cannot prune most recent session; Skipping.'')
              else
                (case select_to_prune allbefore t1 t2 sessions' of
                   Inl e \<Rightarrow> Inl e
                 | Inr to_prune \<Rightarrow>
                     if length to_prune = 0
                     then Inr (NoPrune ''  No sessions in this date-time range.'')
                     else
                       (case py_index sessions' (last to_prune) of
                          None \<Rightarrow> Inl (ValueError ''is not in list'')
                        | Some i \<Rightarrow>
                            if \<not> i + 1 < length sessions' then Inl IndexError
                            else
                              let target_s = sessions' ! (i + 1) in
                              if \<not> unattended \<and> length to_prune > 1 \<and>
                                 lower ans \<notin> {''y'', ''yes''}
                              then Inl (SystemExit 0 [])
                              else Inr (Prune to_prune target_s))))"

section \<open>Addresses as text\<close>

text \<open>
  \<^verbatim>\<open>chdigits = max_address.bit_length() // 4\<close>: \<open>max_address\<close> has 64 bits.
  \<^verbatim>\<open>"%016x" % addr\<close> writes \<open>addr\<close> in lowercase hexadecimal, padded with zeros
  to 16 digits (and longer when it needs more). Addresses are never negative here.
\<close>

definition chdigits :: nat where
  "chdigits = 64 div 4"

definition hexdigit :: "nat \<Rightarrow> char" where
  "hexdigit d = ''0123456789abcdef'' ! d"

fun to_hex :: "nat \<Rightarrow> string" where
  "to_hex n = (if n < 16 then [hexdigit n] else to_hex (n div 16) @ [hexdigit (n mod 16)])"

declare to_hex.simps [simp del]

definition chformat :: "int \<Rightarrow> string" where
  "chformat addr =
     (let h = to_hex (nat addr) in replicate (chdigits - length h) (CHR ''0'') @ h)"

text \<open>Bytes in lowercase hexadecimal, two digits each, as \<^verbatim>\<open>bytes.hex()\<close> writes them.\<close>

definition hex_of_bytes :: "bytes \<Rightarrow> string" where
  "hex_of_bytes b = concat (map (\<lambda>x. [hexdigit (unat x div 16), hexdigit (unat x mod 16)]) b)"

text \<open>\<^verbatim>\<open>int.from_bytes(b, "big")\<close>, for any number of bytes.\<close>

definition from_bytes_big :: "bytes \<Rightarrow> int" where
  "from_bytes_big b = foldl (\<lambda>acc x. acc * 256 + uint x) 0 b"

text \<open>
  \<^verbatim>\<open>range(0, stop, step)\<close> for a positive step: the multiples of \<open>step\<close> below
  \<open>stop\<close>. Both loops that use it are reached with a positive chunk size only.
\<close>

definition py_range0 :: "int \<Rightarrow> int \<Rightarrow> int list" where
  "py_range0 stop step = map (\<lambda>k. int k * step) [0..<nat ((stop + step - 1) div step)]"

text \<open>\<^verbatim>\<open>m[i] |= v\<close> on a byte array or mmap: IndexError out of range.\<close>

definition bmap_or :: "bytes \<Rightarrow> int \<Rightarrow> byte \<Rightarrow> py_error + bytes" where
  "bmap_or m i v =
     (let n = int (length m); j = (if i < 0 then n + i else i)
      in if 0 \<le> j \<and> j < n then Inr (m[nat j := (m ! nat j) OR v]) else Inl IndexError)"

text \<open>A loop body either goes on to the next iteration or leaves the loop.\<close>

datatype 's flow = Next 's | Break 's

fun run_loop :: "('s \<Rightarrow> int \<Rightarrow> py_error + 's flow) \<Rightarrow> 's \<Rightarrow> int list \<Rightarrow> py_error + 's" where
  "run_loop body st [] = Inr st"
| "run_loop body st (a # as) =
     (case body st a of
        Inl e \<Rightarrow> Inl e
      | Inr (Break st') \<Rightarrow> Inr st'
      | Inr (Next st') \<Rightarrow> run_loop body st' as)"

section \<open>The thin-delta translator\<close>

text \<open>
  A child of the \<^verbatim>\<open>diff\<close> element of the thin-delta document: its tag and its
  attributes \<^verbatim>\<open>begin\<close> and \<^verbatim>\<open>length\<close>, in thin blocks.
\<close>

record delta =
  d_tag :: string
  d_begin :: int
  d_length :: int

text \<open>\<^verbatim>\<open>range(a, b)\<close>.\<close>

definition py_range :: "int \<Rightarrow> int \<Rightarrow> int list" where
  "py_range a b = map (\<lambda>k. a + int k) [0..<nat (b - a)]"

text \<open>\<^verbatim>\<open>os.ftruncate\<close>: the file is cut or extended with zero bytes to the length.\<close>

definition ftruncate :: "bytes \<Rightarrow> int \<Rightarrow> py_error + bytes" where
  "ftruncate f n =
     (if n < 0 then Inl (OSError ''Invalid argument'')
      else Inr (take (nat n) f @ replicate (nat n - length f) 0))"

text \<open>A \<^verbatim>\<open>for\<close> loop without \<^verbatim>\<open>break\<close>; an exception ends it.\<close>

fun for_each :: "('s \<Rightarrow> 'a \<Rightarrow> py_error + 's) \<Rightarrow> 's \<Rightarrow> 'a list \<Rightarrow> py_error + 's" where
  "for_each body st [] = Inr st"
| "for_each body st (x # xs) =
     (case body st x of Inl e \<Rightarrow> Inl e | Inr st' \<Rightarrow> for_each body st' xs)"

text \<open>
  The variables of \<^verbatim>\<open>update_delta_digest\<close> that its loops change: the mapped file,
  the byte position and the byte being gathered, and the two block counters.
\<close>

record digest_state =
  g_bmap_mm :: bytes
  g_lastindex :: int
  g_bmap_byte :: byte
  g_dnewblocks :: int
  g_dfreedblocks :: int

text \<open>Lines 763--769, the body of the loop over the 512-byte blocks of one element.\<close>

definition mark_block :: "int \<Rightarrow> digest_state \<Rightarrow> int \<Rightarrow> py_error + digest_state" where
  "mark_block csize st blockpos =
     (case py_floordiv csize bs of
        Inl e \<Rightarrow> Inl e
      | Inr q \<Rightarrow>
          (case py_floordiv blockpos q of
             Inl e \<Rightarrow> Inl e
           | Inr volsegment \<Rightarrow>
               let bmap_pos = volsegment div 8 in
               (case (if bmap_pos \<noteq> g_lastindex st
                      then (case bmap_or (g_bmap_mm st) (g_lastindex st) (g_bmap_byte st) of
                              Inl e \<Rightarrow> Inl e
                            | Inr m \<Rightarrow> Inr (st\<lparr>g_bmap_mm := m, g_bmap_byte := 0\<rparr>))
                      else Inr st) of
                  Inl e \<Rightarrow> Inl e
                | Inr st1 \<Rightarrow>
                    Inr (st1\<lparr>g_bmap_byte := g_bmap_byte st1 OR push_bit (nat (volsegment mod 8)) 1,
                             g_lastindex := bmap_pos\<rparr>))))"

text \<open>Lines 749--769, the body of the loop over the elements.\<close>

definition digest_delta :: "int \<Rightarrow> int \<Rightarrow> digest_state \<Rightarrow> delta \<Rightarrow> py_error + digest_state" where
  "digest_delta csize dblocksize st d =
     (let blockbegin = d_begin d * dblocksize;
          blocklen = d_length d * dblocksize
      in if d_tag d \<in> {''different'', ''right_only''}
         then for_each (mark_block csize) (st\<lparr>g_dnewblocks := g_dnewblocks st + blocklen\<rparr>)
                (py_range blockbegin (blockbegin + blocklen))
         else if d_tag d = ''left_only''
         then for_each (mark_block csize) (st\<lparr>g_dfreedblocks := g_dfreedblocks st + blocklen\<rparr>)
                (py_range blockbegin (blockbegin + blocklen))
         else Inr st)"

text \<open>
  \<^verbatim>\<open>update_delta_digest(datavol)\<close>: \<open>snap2size\<close> is the size of the \<^verbatim>\<open>.tock\<close>
  snapshot, \<open>dblocksize\<close> the \<^verbatim>\<open>data_block_size\<close> of the document, \<open>deltas\<close> the
  children of its \<^verbatim>\<open>diff\<close> element, \<open>mapfile\<close> the bytes of the delta map file.
  The result is the returned flag and the bytes of the map file afterwards. Python's
  \<^verbatim>\<open>mmap\<close> refuses an empty file.
\<close>

definition update_delta_digest :: "archive_set \<Rightarrow> volume \<Rightarrow> int \<Rightarrow> int \<Rightarrow> delta list \<Rightarrow> bytes \<Rightarrow> py_error + (bool \<times> bytes)" where
  "update_delta_digest aset vol snap2size dblocksize deltas mapfile =
     (if length (sessions vol) = 0 then Inr (False, mapfile)
      else
        case mapsize aset vol (Some snap2size) of
          Inl e \<Rightarrow> Inl e
        | Inr msize \<Rightarrow>
            (case ftruncate mapfile msize of
               Inl e \<Rightarrow> Inl e
             | Inr m0 \<Rightarrow>
                 if m0 = [] then Inl (ValueError ''cannot mmap an empty file'')
                 else
                   (case for_each (digest_delta (chunksize aset) dblocksize)
                           \<lparr>g_bmap_mm = m0, g_lastindex = 0, g_bmap_byte = 0,
                            g_dnewblocks = 0, g_dfreedblocks = 0\<rparr> deltas of
                      Inl e \<Rightarrow> Inl e
                    | Inr st \<Rightarrow>
                        (case bmap_or (g_bmap_mm st) (g_lastindex st) (g_bmap_byte st) of
                           Inl e \<Rightarrow> Inl e
                         | Inr m \<Rightarrow> Inr (g_dnewblocks st + g_dfreedblocks st > 0, m)))))"

text \<open>
  Bit \<open>k\<close> of a delta map: bit \<open>k mod 8\<close> of byte \<open>k div 8\<close>. A chunk \<open>k\<close> of size
  \<open>c\<close> intersects the byte range from \<open>lo\<close> up to, not including, \<open>hi\<close> when they
  share a byte. The tags that mark chunks.
\<close>

definition map_bit :: "bytes \<Rightarrow> nat \<Rightarrow> bool" where
  "map_bit m k = bit (m ! (k div 8)) (k mod 8)"

definition chunk_intersects :: "int \<Rightarrow> nat \<Rightarrow> int \<Rightarrow> int \<Rightarrow> bool" where
  "chunk_intersects c k lo hi = (max lo (int k * c) < min hi ((int k + 1) * c))"

definition marking_tag :: "string \<Rightarrow> bool" where
  "marking_tag t = (t \<in> {''different'', ''right_only'', ''left_only''})"

text \<open>
  For the proofs: \<open>set_chunk_bit\<close> sets bit \<open>k\<close> of a map; \<open>pending_map\<close> is the
  map once the byte being gathered is written at its position; \<open>digest_inv\<close> says that
  position lies in the map; \<open>delta_chunks\<close> lists the chunk of every 512-byte block of a
  marking element, in the order the loop visits them.
\<close>

definition set_chunk_bit :: "bytes \<Rightarrow> nat \<Rightarrow> bytes" where
  "set_chunk_bit m k = m[k div 8 := m ! (k div 8) OR push_bit (k mod 8) 1]"

definition pending_map :: "digest_state \<Rightarrow> bytes" where
  "pending_map st =
     (g_bmap_mm st)[nat (g_lastindex st) := g_bmap_mm st ! nat (g_lastindex st) OR g_bmap_byte st]"

definition digest_inv :: "digest_state \<Rightarrow> bool" where
  "digest_inv st = (0 \<le> g_lastindex st \<and> nat (g_lastindex st) < length (g_bmap_mm st))"

definition delta_chunks :: "int \<Rightarrow> int \<Rightarrow> delta \<Rightarrow> nat list" where
  "delta_chunks csize dblocksize d =
     (if marking_tag (d_tag d)
      then map (\<lambda>p. nat (p div (csize div 512)))
             (py_range (d_begin d * dblocksize) (d_begin d * dblocksize + d_length d * dblocksize))
      else [])"

section \<open>The send loop\<close>

text \<open>
  \<^verbatim>\<open>print(a, b, file=f)\<close> writes the two texts with a blank between and a line feed.
  \<^verbatim>\<open>address_split[1]\<close> is 7: \<^verbatim>\<open>destfile[1:addrsplit]\<close> drops the leading \<^verbatim>\<open>x\<close>
  and the last seven digits, \<^verbatim>\<open>ddchx[:addrsplit]\<close> the last seven digits.
  \<^verbatim>\<open>int(aset.compr_level)\<close> is modelled for texts of decimal digits, which is what
  the configuration holds.
\<close>

definition print2 :: "string \<Rightarrow> string \<Rightarrow> string" where
  "print2 a b = a @ '' '' @ b @ [CHR 0x0A]"

definition address_split1 :: nat where
  "address_split1 = 7"

text \<open>
  \<^verbatim>\<open>int(s)\<close> on a string: white space around the number is dropped, a sign may come
  first, and the digits may have single underscores between them.
\<close>

definition int_space :: "char \<Rightarrow> bool" where
  "int_space c = ((of_char c :: nat) \<in> {9, 10, 11, 12, 13, 28, 29, 30, 31, 32, 133, 160})"

definition is_digit :: "char \<Rightarrow> bool" where
  "is_digit c = (c \<in> set ''0123456789'')"

fun digits_ok :: "string \<Rightarrow> bool" where
  "digits_ok [] = False"
| "digits_ok [c] = is_digit c"
| "digits_ok (c # d # t) =
     (is_digit c \<and> (if d = CHR ''_'' then digits_ok t else digits_ok (d # t)))"

definition py_int :: "string \<Rightarrow> py_error + int" where
  "py_int t =
     (let u = rev (dropWhile int_space (rev (dropWhile int_space t)));
          neg = (take 1 u = ''-'');
          d = (if take 1 u = ''-'' \<or> take 1 u = ''+'' then drop 1 u else u)
      in if digits_ok d
         then Inr ((if neg then - 1 else 1)
                * foldl (\<lambda>a c. 10 * a + (int (of_char c) - 48)) 0
                    (filter (\<lambda>c. c \<noteq> CHR ''_'') d))
         else Inl (ValueError ''invalid literal for int()''))"

text \<open>\<^verbatim>\<open>m[i]\<close> on the mapped delta map (or on \<^verbatim>\<open>bytes(1)\<close>).\<close>

definition bmap_get :: "bytes \<Rightarrow> int \<Rightarrow> py_error + byte" where
  "bmap_get m i =
     (let n = int (length m); j = (if i < 0 then n + i else i)
      in if 0 \<le> j \<and> j < n then Inr (m ! nat j) else Inl IndexError)"

text \<open>
  An entry added to the tar stream: a regular file with its data, or a link
  (\<^verbatim>\<open>LNKTYPE\<close>) to another path, which carries no data.
\<close>

datatype tar_entry = TarFile string bytes | TarLink string string

text \<open>
  What the loop of \<^verbatim>\<open>send_volume\<close> reads. \<open>v_compress\<close> is what \<^verbatim>\<open>zlib.compress\<close>
  returns for a level it accepts (\<open>-1\<close> to \<open>9\<close>; for any other it raises), bound only
  when the archive's compression is \<^verbatim>\<open>zlib\<close>; \<open>v_sha256\<close> is the digest
  \<^verbatim>\<open>hashlib.sha256(b).digest()\<close>, whose \<^verbatim>\<open>hexdigest()\<close> is that digest in
  hexadecimal. \<open>v_ses\<close> is the new session, as volume name and session name.

  The three experimental dedup indexes (\<^verbatim>\<open>--testing-dedup\<close> 3, 4, 5) differ in how
  they look a digest up and insert it; the loop takes that step as \<open>v_dedup_step\<close>: from
  the index, the digest and the address it gives the index afterwards and, when the
  digest was found, the session and the address text of the chunk found (\<^verbatim>\<open>ddses\<close>,
  \<^verbatim>\<open>ddchx\<close>), for which \<^verbatim>\<open>tar_info.type\<close> becomes \<^verbatim>\<open>LNKTYPE\<close>. The steps are given
  \<^verbatim>\<open>aset.allsessions\<close> with the new session appended and the position of the new
  session there (\<^verbatim>\<open>ses_index\<close>).
\<close>

record 'i send_env =
  v_chunksize :: int
  v_sendall_addr :: int
  v_lchunk_addr :: int
  v_vf :: bytes
  v_bmap_mm :: bytes
  v_sdir :: string
  v_ses :: "string \<times> string"
  v_compress :: "(bytes \<Rightarrow> int \<Rightarrow> bytes) option"
  v_compresslevel :: int
  v_sha256 :: "bytes \<Rightarrow> bytes"
  v_dedup_step :: "'i \<Rightarrow> bytes \<Rightarrow> int \<Rightarrow> py_error + ('i \<times> ((string \<times> string) \<times> string) option)"

text \<open>
  What the loop writes: the lines of the manifest, the entries of the tar stream in
  order, whether the stream was started, the byte counters, and the dedup index.
\<close>

record 'i send_state =
  s_manifest :: "string list"
  s_tar :: "tar_entry list"
  s_stream_started :: bool
  s_bcount :: int
  s_ddbytes :: int
  s_dedup :: 'i

text \<open>\<^verbatim>\<open>dedup == 0\<close>: no lookup, never a link.\<close>

definition no_dedup :: "(string \<times> string) list \<Rightarrow> int \<Rightarrow> unit \<Rightarrow> bytes \<Rightarrow> int \<Rightarrow> py_error + (unit \<times> ((string \<times> string) \<times> string) option)" where
  "no_dedup allsessions' ses_index idx bhashb addr = Inr (idx, None)"




text \<open>
  \<^verbatim>\<open>tar_info.linkname\<close> of a chunk found in the index, from the new session \<open>ses\<close>,
  the session found and the address text found.
\<close>

definition link_name :: "string \<times> string \<Rightarrow> string \<times> string \<Rightarrow> string \<Rightarrow> string" where
  "link_name ses ddses ddchx =
     fst ddses @ ''/''
       @ (if ddses = ses then snd ddses @ ''-tmp'' else snd ddses)
       @ ''/'' @ take (length ddchx - address_split1) ddchx
       @ ''/x'' @ ddchx"

text \<open>
  Lines 894--1020, the body of \<^verbatim>\<open>for addr in range(0, snap2size, chunksize)\<close>.
  The snapshot is read with \<^verbatim>\<open>vf_seek(addr); vf_read(chunksize)\<close>. Starting the
  \<^verbatim>\<open>untar\<close> process is the flag \<open>s_stream_started\<close>; progress output is left out.
\<close>

definition send_chunk :: "'i send_env \<Rightarrow> 'i send_state \<Rightarrow> int \<Rightarrow> py_error + 'i send_state flow" where
  "send_chunk env st0 addr =
     (let csize = v_chunksize env;
          chunk = addr div csize;
          bmap_pos = chunk div 8;
          b = chunk mod 8
      in case (if addr \<ge> v_sendall_addr env then Inr True
               else case bmap_get (v_bmap_mm env) bmap_pos of
                      Inl e \<Rightarrow> Inl e
                    | Inr x \<Rightarrow> Inr (x AND push_bit (nat b) 1 \<noteq> 0)) of
           Inl e \<Rightarrow> Inl e
         | Inr False \<Rightarrow> Inr (Next st0)
         | Inr True \<Rightarrow>
             (let buf = take (nat csize) (drop (nat addr) (v_vf env));
                  destfile = CHR ''x'' # chformat addr;
                  st = st0\<lparr>s_stream_started := True\<rparr>
              in if buf = replicate (nat csize) 0 \<and> addr < v_lchunk_addr env
                 then Inr (Next (st\<lparr>s_manifest := s_manifest st @ [print2 ''0'' destfile]\<rparr>))
                 else
                   (case v_compress env of
                      None \<Rightarrow> Inl (UnboundLocalError ''compress'')
                    | Some compress \<Rightarrow>
                        if v_compresslevel env < - 1 \<or> 9 < v_compresslevel env
                        then Inl ZlibError
                        else
                        (let cbuf = compress buf (v_compresslevel env);
                             bhash = v_sha256 env cbuf;
                             tar_name = v_sdir env @ ''-tmp/''
                                @ drop 1 (take (length destfile - address_split1) destfile)
                                @ ''/'' @ destfile;
                             st = st\<lparr>s_manifest :=
                                       s_manifest st @ [print2 (hex_of_bytes bhash) destfile]\<rparr>
                         in case v_dedup_step env (s_dedup st) bhash addr of
                              Inl e \<Rightarrow> Inl e
                            | Inr (idx, Some (ddses, ddchx)) \<Rightarrow>
                                (let linkname = link_name (v_ses env) ddses ddchx
                                 in Inr (Next (st\<lparr>s_dedup := idx,
                                       s_tar := s_tar st @ [TarLink tar_name linkname],
                                       s_ddbytes := s_ddbytes st + int (length cbuf)\<rparr>)))
                            | Inr (idx, None) \<Rightarrow>
                                Inr (Next (st\<lparr>s_dedup := idx,
                                       s_tar := s_tar st @ [TarFile tar_name cbuf],
                                       s_bcount := s_bcount st + int (length cbuf)\<rparr>))))))"

text \<open>
  \<^verbatim>\<open>send_volume(datavol, localtime)\<close> up to the end of the chunk loop. \<open>vf\<close> is the
  content of the \<^verbatim>\<open>.tock\<close> snapshot, \<open>snap2size\<close> the size LVM reports for it,
  \<open>mapfile\<close> the content of \<^verbatim>\<open>deltamap-tmp\<close>; \<open>compress\<close>, \<open>sha256\<close>, the dedup
  step and its index are as in the environment above. \<^verbatim>\<open>vol.new_session\<close> appends
  the new session to \<^verbatim>\<open>aset.allsessions\<close>, where \<^verbatim>\<open>allsessions.index(ses)\<close> finds
  it at the end. \<^verbatim>\<open>vol.mapsize\<close> and
  \<^verbatim>\<open>last_chunk_addr\<close> raise on chunk size 0, \<^verbatim>\<open>bytes(chunksize)\<close> on a negative one.
\<close>

definition send_volume :: "archive_set \<Rightarrow> volume \<Rightarrow> int \<Rightarrow> string \<Rightarrow> bytes \<Rightarrow> bytes \<Rightarrow> (bytes \<Rightarrow> int \<Rightarrow> bytes) \<Rightarrow> (bytes \<Rightarrow> bytes) \<Rightarrow> ((string \<times> string) list \<Rightarrow> int \<Rightarrow> 'i \<Rightarrow> bytes \<Rightarrow> int \<Rightarrow> py_error + ('i \<times> ((string \<times> string) \<times> string) option)) \<Rightarrow> 'i \<Rightarrow> py_error + 'i send_state" where
  "send_volume aset vol snap2size localtime vf mapfile compress sha256 dedup_step idx =
     (case mapsize aset vol (Some snap2size) of
        Inl e \<Rightarrow> Inl e
      | Inr bmap_size \<Rightarrow>
          (let bksession = ''S_'' @ localtime;
               sdir = vol_name vol @ ''/'' @ bksession;
               send_all = (length (sessions vol) = 0)
           in if chunksize aset < 0 then Inl (ValueError ''negative count'')
              else
                case last_chunk_addr snap2size (chunksize aset) of
                  Inl e \<Rightarrow> Inl e
                | Inr lchunk_addr \<Rightarrow>
                    (case sendall_addr send_all snap2size (volsize vol) (chunksize aset) of
                       Inl e \<Rightarrow> Inl e
                     | Inr sa \<Rightarrow>
                         (case py_int (compr_level aset) of
                            Inl e \<Rightarrow> Inl e
                          | Inr compresslevel \<Rightarrow>
                              run_loop
                                (send_chunk
                                   \<lparr>v_chunksize = chunksize aset, v_sendall_addr = sa,
                                    v_lchunk_addr = lchunk_addr, v_vf = vf,
                                    v_bmap_mm = (if send_all then [0] else mapfile),
                                    v_sdir = sdir, v_ses = (vol_name vol, bksession),
                                    v_compress =
                                      (if compression aset = ''zlib'' then Some compress else None),
                                    v_compresslevel = compresslevel, v_sha256 = sha256,
                                    v_dedup_step =
                                      dedup_step (allsessions aset @ [(vol_name vol, bksession)])
                                        (int (length (allsessions aset)))\<rparr>)
                                \<lparr>s_manifest = [], s_tar = [], s_stream_started = False,
                                 s_bcount = 0, s_ddbytes = 0, s_dedup = idx\<rparr>
                                (py_range0 snap2size (chunksize aset))))))"

text \<open>
  For the statements about the send loop: the bytes of the chunk at an address; whether
  the chunk is emitted (at or above the send-all threshold, or its delta map bit set);
  whether it is written as a zero line (all its bytes zero, and not the last chunk); the
  manifest line of an emitted chunk; the digest of its compressed bytes; the path of its
  tar entry; and the tar entry of a
  chunk that is not a zero line, given what the dedup lookup found for its digest: with
  nothing found its compressed bytes as a file, with a chunk found a link to that chunk.
\<close>

definition chunk_bytes :: "int \<Rightarrow> bytes \<Rightarrow> int \<Rightarrow> bytes" where
  "chunk_bytes c vf a = take (nat c) (drop (nat a) vf)"

definition chunk_emitted :: "int \<Rightarrow> int \<Rightarrow> bytes \<Rightarrow> int \<Rightarrow> bool" where
  "chunk_emitted sa c bmap a = (sa \<le> a \<or> map_bit bmap (nat (a div c)))"

definition chunk_zero :: "int \<Rightarrow> int \<Rightarrow> bytes \<Rightarrow> int \<Rightarrow> bool" where
  "chunk_zero c lca vf a = (list_all (\<lambda>x. x = 0) (chunk_bytes c vf a) \<and> a \<noteq> lca)"

definition manifest_line :: "int \<Rightarrow> int \<Rightarrow> bytes \<Rightarrow> (bytes \<Rightarrow> int \<Rightarrow> bytes) \<Rightarrow> int \<Rightarrow> (bytes \<Rightarrow> bytes) \<Rightarrow> int \<Rightarrow> string" where
  "manifest_line c lca vf compress lvl sha256 a =
     (if chunk_zero c lca vf a then print2 ''0'' (CHR ''x'' # chformat a)
      else print2 (hex_of_bytes (sha256 (compress (chunk_bytes c vf a) lvl)))
             (CHR ''x'' # chformat a))"


definition chunk_path :: "string \<Rightarrow> int \<Rightarrow> string" where
  "chunk_path sdir a =
     sdir @ ''-tmp/''
       @ drop 1 (take (length (CHR ''x'' # chformat a) - address_split1) (CHR ''x'' # chformat a))
       @ ''/'' @ CHR ''x'' # chformat a"

definition chunk_entry :: "string \<Rightarrow> string \<times> string \<Rightarrow> int \<Rightarrow> bytes \<Rightarrow> (bytes \<Rightarrow> int \<Rightarrow> bytes) \<Rightarrow> int \<Rightarrow> int \<Rightarrow> ((string \<times> string) \<times> string) option \<Rightarrow> tar_entry" where
  "chunk_entry sdir ses c vf compress lvl a found =
     (case found of
        None \<Rightarrow> TarFile (chunk_path sdir a) (compress (chunk_bytes c vf a) lvl)
      | Some (ddses, ddchx) \<Rightarrow> TarLink (chunk_path sdir a) (link_name ses ddses ddchx))"

text \<open>
  What a dedup step answers for a sequence of digests and addresses looked up one after
  the other, each lookup on the index the one before left.
\<close>

fun dedup_lookups :: "('i \<Rightarrow> bytes \<Rightarrow> int \<Rightarrow> py_error + ('i \<times> 'r option)) \<Rightarrow> 'i \<Rightarrow> (bytes \<times> int) list \<Rightarrow> py_error + 'r option list" where
  "dedup_lookups step idx [] = Inr []"
| "dedup_lookups step idx ((h, a) # xs) =
     (case step idx h a of
        Inl e \<Rightarrow> Inl e
      | Inr (idx', r) \<Rightarrow>
          (case dedup_lookups step idx' xs of
             Inl e \<Rightarrow> Inl e
           | Inr rs \<Rightarrow> Inr (r # rs)))"



section \<open>The receive loop\<close>

text \<open>
  What \<^verbatim>\<open>receive_volume\<close> is called with and reads from outside: the mode
  (\<open>verify_only\<close>, \<open>save_path\<close>, \<open>diff\<close>, \<open>remap\<close>), the sizes, the library
  functions \<^verbatim>\<open>hashlib.sha256(b).hexdigest()\<close> and \<^verbatim>\<open>zlib.decompress\<close>
  (\<open>None\<close> where it raises \<^verbatim>\<open>zlib.error\<close>), and
  what \<^verbatim>\<open>getvol.poll()\<close> answers at each address (\<open>None\<close> while the helper runs).
\<close>

record recv_env =
  e_verify_only :: bool
  e_save_path :: string
  e_diff :: bool
  e_remap :: bool
  e_volsize :: int
  e_chunksize :: int
  e_sha256_hexdigest :: "bytes \<Rightarrow> string"
  e_decompress :: "bytes \<Rightarrow> bytes option"
  e_poll :: "int \<Rightarrow> int option"

text \<open>
  The variables and files of the loop. \<open>r_mf\<close> holds the unread lines of
  \<^verbatim>\<open>manifest.verify\<close>, each as the fields \<^verbatim>\<open>strip().split()\<close> gives;
  \<open>r_stdout\<close> the unread bytes of the helper's output; \<open>r_rc\<close>, \<open>r_buf\<close> and
  \<open>r_addr\<close> are \<open>None\<close> while the local variable is unbound; \<open>r_savef_pos\<close> and
  \<open>r_savef_writes\<close> are the position of \<^verbatim>\<open>savef\<close> and what was written where;
  \<open>r_cmpf\<close> the unread bytes of the volume compared with; \<open>r_bmap_mm\<close> the delta map.
\<close>

record recv_state =
  r_mf :: "string list list"
  r_stdout :: bytes
  r_rc :: "int option option"
  r_buf :: "bytes option"
  r_addr :: "int option"
  r_savef_pos :: int
  r_savef_writes :: "(int \<times> bytes) list"
  r_cmpf :: bytes
  r_bmap_mm :: bytes
  r_diff_count :: int

definition recv_init :: "string list list \<Rightarrow> bytes \<Rightarrow> bytes \<Rightarrow> bytes \<Rightarrow> recv_state" where
  "recv_init mf out cmpf bmap =
     \<lparr>r_mf = mf, r_stdout = out, r_rc = None, r_buf = None, r_addr = None,
      r_savef_pos = 0, r_savef_writes = [], r_cmpf = cmpf, r_bmap_mm = bmap,
      r_diff_count = 0\<rparr>"

text \<open>The nested \<^verbatim>\<open>diff_compare(dbuf, z)\<close>; it returns the number of differing bytes.\<close>

definition diff_compare :: "recv_env \<Rightarrow> int \<Rightarrow> bytes \<Rightarrow> recv_state \<Rightarrow> py_error + (recv_state \<times> int)" where
  "diff_compare env addr dbuf st =
     (let csize = e_chunksize env;
          other = take (nat csize) (r_cmpf st);
          st1 = st\<lparr>r_cmpf := drop (nat csize) (r_cmpf st)\<rparr>
      in if dbuf \<noteq> other then
           (if e_remap env then
              (let volsegment = addr div csize;
                   bmap_pos = volsegment div 8
               in case bmap_or (r_bmap_mm st1) bmap_pos (push_bit (nat (volsegment mod 8)) 1) of
                    Inl e \<Rightarrow> Inl e
                  | Inr m \<Rightarrow> Inr (st1\<lparr>r_bmap_mm := m\<rparr>, int (length dbuf)))
            else Inr (st1, int (length dbuf)))
         else Inr (st1, 0))"

text \<open>
  The body of \<^verbatim>\<open>for addr in range(0, volsize, chunksize)\<close>, lines 1747--1818, in
  three parts. Progress output is left out.

  Lines 1759--1772, the branch of a manifest line whose hash is \<^verbatim>\<open>0\<close>;
  \<open>st\<close> is the state after the four bytes of the size were read.
\<close>

definition receive_zero_chunk :: "recv_env \<Rightarrow> recv_state \<Rightarrow> int \<Rightarrow> int \<Rightarrow> py_error + recv_state flow" where
  "receive_zero_chunk env st addr untrusted_size =
     (let csize = e_chunksize env in
      if untrusted_size \<noteq> 0 then Inl (ValueError ''Expected size 0'')
      else
        let st = (if e_save_path env \<noteq> []
                  then st\<lparr>r_savef_pos := r_savef_pos st + csize\<rparr> else st)
        in if e_diff env then
             (case diff_compare env addr (replicate (nat csize) 0) st of
                Inl e \<Rightarrow> Inl e
              | Inr (st', n) \<Rightarrow> Inr (Next (st'\<lparr>r_diff_count := r_diff_count st' + n\<rparr>)))
           else Inr (Next st))"

text \<open>
  Lines 1779--1818, reached when the size has passed the check: read the payload, poll
  the helper, check length and hash, decompress, check the decompressed length, then
  verify, save or compare.
\<close>

definition receive_payload :: "recv_env \<Rightarrow> int \<Rightarrow> recv_state \<Rightarrow> int \<Rightarrow> string \<Rightarrow> int \<Rightarrow> py_error + recv_state flow" where
  "receive_payload env lchunk_addr st0 addr cksum size' =
     (let csize = e_chunksize env;
          untrusted_buf = take (nat size') (r_stdout st0);
          st = st0\<lparr>r_stdout := drop (nat size') (r_stdout st0)\<rparr>;
          rc = e_poll env addr;
          st = st\<lparr>r_rc := Some rc\<rparr>
      in
      if rc \<noteq> None \<and> length untrusted_buf = 0 then Inr (Break st)
      else if int (length untrusted_buf) \<noteq> size'
      then Inl (BufferError ''Got bytes, expected'')
      else if cksum \<noteq> e_sha256_hexdigest env untrusted_buf
      then Inl (ValueError ''Bad hash'')
      else
        (case e_decompress env untrusted_buf of
           None \<Rightarrow> Inl ZlibError
         | Some untrusted_decomp \<Rightarrow>
             if int (length untrusted_decomp) \<noteq> csize \<and> addr < lchunk_addr
             then Inl (BufferError ''Decompressed to bytes.'')
             else if addr = lchunk_addr \<and>
                     int (length untrusted_decomp) \<noteq> e_volsize env - lchunk_addr
             then Inl (BufferError ''Decompressed to bytes.'')
             else
               let st = st\<lparr>r_buf := Some untrusted_decomp\<rparr> in
               if e_verify_only env then Inr (Next st)
               else if e_save_path env \<noteq> [] then
                 Inr (Next (st\<lparr>r_savef_writes :=
                                r_savef_writes st @ [(r_savef_pos st, untrusted_decomp)],
                              r_savef_pos :=
                                r_savef_pos st + int (length untrusted_decomp)\<rparr>))
               else if e_diff env then
                 (case diff_compare env addr untrusted_decomp st of
                    Inl e \<Rightarrow> Inl e
                  | Inr (st', n) \<Rightarrow>
                      Inr (Next (st'\<lparr>r_diff_count := r_diff_count st' + n\<rparr>)))
               else Inr (Next st)))"

text \<open>
  Lines 1747--1777: the manifest line is read and split, the name compared with the
  address, the size read from the stream and checked.
\<close>

definition receive_chunk :: "recv_env \<Rightarrow> int \<Rightarrow> recv_state \<Rightarrow> int \<Rightarrow> py_error + recv_state flow" where
  "receive_chunk env lchunk_addr st0 addr =
     (let csize = e_chunksize env;
          faddr = CHR ''x'' # chformat addr;
          st = st0\<lparr>r_addr := Some addr\<rparr>
      in case r_mf st of
           [] \<Rightarrow> Inl (ValueError ''not enough values to unpack'')
         | line # mf_rest \<Rightarrow>
             (case line of
                [cksum, fname, sname] \<Rightarrow>
                  (let st = st\<lparr>r_mf := mf_rest\<rparr> in
                   if fname \<noteq> faddr then Inl (ValueError ''Bad fname'')
                   else
                     let untrusted_size = from_bytes_big (take 4 (r_stdout st));
                         st = st\<lparr>r_stdout := drop 4 (r_stdout st)\<rparr>
                     in
                     if cksum = ''0'' then receive_zero_chunk env st addr untrusted_size
                     else if untrusted_size > csize + csize div 1024 \<or> untrusted_size < 1
                     then Inl (BufferError ''Bad chunk size'')
                     else receive_payload env lchunk_addr st addr cksum untrusted_size)
              | _ \<Rightarrow> Inl (ValueError ''wrong number of values to unpack'')))"

text \<open>
  Lines 1820--1849, after the loop: \<open>rc\<close>, \<open>addr\<close> and \<open>buf\<close> are read whether or
  not the loop has bound them.
\<close>

definition receive_finish :: "recv_env \<Rightarrow> recv_state \<Rightarrow> py_error + recv_state" where
  "receive_finish env st =
     (case r_rc st of
        None \<Rightarrow> Inl (UnboundLocalError ''rc'')
      | Some rc \<Rightarrow>
          if rc \<noteq> None \<and> the rc > 0
          then Inl (RuntimeError ''Error code from getvol process'')
          else
            (case r_addr st of
               None \<Rightarrow> Inl (UnboundLocalError ''addr'')
             | Some addr \<Rightarrow>
                 (case r_buf st of
                    None \<Rightarrow> Inl (UnboundLocalError ''buf'')
                  | Some buf \<Rightarrow>
                      if addr + int (length buf) \<noteq> e_volsize env
                      then Inl (ValueError ''Received range does not match volume size.'')
                      else if e_save_path env = [] \<and> e_diff env \<and> \<not> e_remap env \<and>
                              r_diff_count st \<noteq> 0
                      then Inl (SystemExit 1 ''bytes differ.'')
                      else Inr st)))"

text \<open>
  The data phase of \<^verbatim>\<open>receive_volume\<close>: \<^verbatim>\<open>zeros = bytes(chunksize)\<close> raises
  on a negative chunk size and \<^verbatim>\<open>last_chunk_addr\<close> on a zero one, both before the
  loop; then the loop, then the checks after it.
\<close>

definition receive_volume_data :: "recv_env \<Rightarrow> recv_state \<Rightarrow> py_error + recv_state" where
  "receive_volume_data env st =
     (if e_chunksize env < 0 then Inl (ValueError ''negative count'')
      else
        case last_chunk_addr (e_volsize env) (e_chunksize env) of
          Inl e \<Rightarrow> Inl e
        | Inr lchunk_addr \<Rightarrow>
            (case run_loop (receive_chunk env lchunk_addr) st
                    (py_range0 (e_volsize env) (e_chunksize env)) of
               Inl e \<Rightarrow> Inl e
             | Inr st' \<Rightarrow> receive_finish env st'))"

text \<open>A merged manifest whose every line has three fields, the first of them \<^verbatim>\<open>0\<close>.\<close>

definition zero_hash_manifest :: "string list list \<Rightarrow> bool" where
  "zero_hash_manifest mf = list_all (\<lambda>line. length line = 3 \<and> hd line = ''0'') mf"

text \<open>An error that is an exception, not an exit through \<^verbatim>\<open>x_it\<close>.\<close>

fun is_exception :: "py_error \<Rightarrow> bool" where
  "is_exception (SystemExit c t) = False"
| "is_exception e = True"

section \<open>Example data\<close>

text \<open>
  A session name \<^verbatim>\<open>S_YYYYMMDD-HHMMSS\<close>: second \<open>k\<close> of 1 January 2019, for
  \<open>k\<close> below 86400.
\<close>

definition two_digits :: "nat \<Rightarrow> string" where
  "two_digits n = [hexdigit ((n div 10) mod 10), hexdigit (n mod 10)]"

definition session_at :: "nat \<Rightarrow> string" where
  "session_at k =
     ''S_20190101-'' @ two_digits (k div 3600) @ two_digits ((k div 60) mod 60)
       @ two_digits (k mod 60)"

text \<open>
  A verify run over a volume of two 64 KiB chunks whose helper keeps running. The library
  functions are stand-ins: the digest of a payload is the payload itself in hexadecimal,
  and decompression returns its input.
\<close>

definition example_env :: recv_env where
  "example_env =
     \<lparr>e_verify_only = True, e_save_path = [], e_diff = False, e_remap = False,
      e_volsize = 131072, e_chunksize = 65536,
      e_sha256_hexdigest = hex_of_bytes, e_decompress = Some, e_poll = (\<lambda>a. None)\<rparr>"

text \<open>
  Texts of the shape \<^verbatim>\<open>YYYYMMDD-HHMMSS\<close>, standing in for what \<^verbatim>\<open>strptime\<close>
  accepts, and a volume with three sessions of two 64 KiB chunks each.
\<close>

definition datetime_shape :: "string \<Rightarrow> bool" where
  "datetime_shape s =
     (length s = 15 \<and> s ! 8 = CHR ''-'' \<and>
      list_all (\<lambda>c. c \<in> set ''0123456789'') (take 8 s @ drop 9 s))"

definition example_ses :: "string \<Rightarrow> int \<Rightarrow> string \<Rightarrow> ses" where
  "example_ses name sq prev =
     \<lparr>ses_name = name, ses_volsize = 131072, ses_format = ''folders'', ses_sequence = sq,
      ses_previous = prev\<rparr>"

definition example_volume :: volume where
  "example_volume =
     \<lparr>vol_name = ''vm1'', volsize = 131072,
      vol_first = Some ''S_20190101-000000'', vol_last = Some ''S_20190103-000000'',
      sesnames = [''S_20190101-000000'', ''S_20190102-000000'', ''S_20190103-000000''],
      sessions = [(''S_20190101-000000'', example_ses ''S_20190101-000000'' 0 ''none''),
                  (''S_20190102-000000'', example_ses ''S_20190102-000000'' 1 ''S_20190101-000000''),
                  (''S_20190103-000000'', example_ses ''S_20190103-000000'' 2 ''S_20190102-000000'')]\<rparr>"

text \<open>
  A volume whose one session was made when it had 8 MiB, before it was reduced.
\<close>

definition shrunk_volume :: volume where
  "shrunk_volume =
     \<lparr>vol_name = ''vm1'', volsize = 8388608,
      vol_first = Some ''S_20190101-000000'', vol_last = Some ''S_20190101-000000'',
      sesnames = [''S_20190101-000000''],
      sessions = [(''S_20190101-000000'',
                   \<lparr>ses_name = ''S_20190101-000000'', ses_volsize = 8388608,
                    ses_format = ''folders'', ses_sequence = 0, ses_previous = ''none''\<rparr>)]\<rparr>"

text \<open>
  Stand-ins for the library functions of the send loop: a compressor that stores the
  bytes as they are, and a 32-byte digest made of a fixed pattern and the length of its
  input. The general statements below hold for every compressor and digest.
\<close>

definition stored :: "bytes \<Rightarrow> int \<Rightarrow> bytes" where
  "stored b level = b"

definition toy_sha256 :: "bytes \<Rightarrow> bytes" where
  "toy_sha256 b = replicate 31 0x5a @ [of_nat (length b mod 251)]"

section \<open>Theorems\<close>

lemma bkchunksize_val: "bkchunksize = 65536"
  by (simp add: bkchunksize_def lvm_block_factor_def bs_def)

lemma replicate_numeral_unfold: "replicate (numeral k) x = x # replicate (pred_numeral k) x"
  by (simp add: numeral_eq_Suc)

subsection \<open>The size of the delta map\<close>

lemma floor_div_div8: "\<lfloor>real_of_int v / (real_of_int c * 8)\<rfloor> = v div c div 8"
proof -
  have "real_of_int v / (real_of_int c * 8) = real_of_int v / real_of_int (c * 8)"
    by simp
  then have "\<lfloor>real_of_int v / (real_of_int c * 8)\<rfloor> = v div (c * 8)"
    by (simp only: floor_divide_of_int_eq)
  also have "\<dots> = v div c div 8"
    by (simp add: zdiv_zmult2_eq)
  finally show ?thesis .
qed

text \<open>
  C4, as stated, fails: for a volume of 1 byte and 64 KiB chunks \<^verbatim>\<open>mapsize\<close> gives
  1 byte, where the ceiling of \<open>1 / 65536 / 8\<close>, plus one, is 2.
\<close>

theorem mapsize_not_ceiling:
  "mapsize new_archive_set (new_volume ''vm1'') (Some 1) = Inr 1 \<and> spec_mapsize 1 65536 = 2"
  by (simp add: mapsize_def py_floordiv_def new_archive_set_def bkchunksize_val
      spec_mapsize_def ceiling_eq_iff)

text \<open>
  C4, amended: for every volume size and every chunk size other than zero, the delta map
  size computed by \<^verbatim>\<open>Volume.mapsize\<close> is the floor of \<open>volsize / chunksize / 8\<close>,
  plus one, where \<open>volsize\<close> is the argument, or the size of the last session when the
  argument is absent or zero.
\<close>

theorem mapsize_floor:
  "chunksize archive \<noteq> 0 \<Longrightarrow>
     mapsize archive self None
       = Inr (\<lfloor>real_of_int (volsize self) / real_of_int (chunksize archive) / 8\<rfloor> + 1) \<and>
     mapsize archive self (Some 0)
       = Inr (\<lfloor>real_of_int (volsize self) / real_of_int (chunksize archive) / 8\<rfloor> + 1) \<and>
     (v \<noteq> 0 \<longrightarrow> mapsize archive self (Some v)
       = Inr (\<lfloor>real_of_int v / real_of_int (chunksize archive) / 8\<rfloor> + 1))"
  by (simp add: mapsize_def py_floordiv_def floor_div_div8)

theorem mapsize_floor_witness:
  "chunksize new_archive_set \<noteq> 0 \<and> (268435456::int) \<noteq> 0 \<and>
   mapsize new_archive_set (new_volume ''vm1'') (Some 268435456) = Inr 513"
  using mapsize_floor [where archive = new_archive_set and v = 268435456
      and self = "new_volume ''vm1''"]
  by (simp add: new_archive_set_def bkchunksize_val)

subsection \<open>The send-all threshold\<close>

text \<open>
  C3, as stated, fails: a volume with sessions that grew from 100 to 200 bytes, with 64 KiB
  chunks, is larger than before, but the threshold computed is \<open>volsize + 1 = 201\<close>, not
  the first chunk offset beyond the prior size, 65536.
\<close>

theorem sendall_addr_not_spec:
  "sendall_addr False 200 100 65536 = Inr 201 \<and> spec_send_all_from False 200 100 65536 = 65536"
  by (simp add: sendall_addr_def spec_send_all_from_def last_chunk_addr_def py_mod_def)

text \<open>
  C3, amended: for a positive chunk size the send-all threshold is 0 when the volume has
  no prior sessions; otherwise, when the new volume size is greater than the first chunk
  offset beyond the prior size (\<open>last_chunk_addr(prior, C) + C\<close>), it is that offset;
  otherwise it is \<open>volsize + 1\<close>.
\<close>

theorem sendall_addr_value:
  "0 < csize \<Longrightarrow>
   sendall_addr send_all snap2size prior csize =
     Inr (if send_all then 0
          else if snap2size > (prior - 1) - (prior - 1) mod csize + csize
               then (prior - 1) - (prior - 1) mod csize + csize
          else snap2size + 1)"
proof -
  assume c: "0 < csize"
  define m where "m = (prior - 1) mod csize"
  have "m < csize" using c by (simp add: m_def)
  then have "\<not> (prior - 1 - m + csize < snap2size \<and> snap2size < prior)"
    by linarith
  then show ?thesis using c
    by (auto simp add: sendall_addr_def last_chunk_addr_def py_mod_def Let_def m_def)
qed

theorem sendall_addr_value_witness:
  "(0::int) < 65536 \<and> sendall_addr False 2097152 1048576 65536 = Inr 1048576 \<and>
   sendall_addr False 1048576 1048576 65536 = Inr 1048577 \<and>
   sendall_addr True 1048576 0 65536 = Inr 0"
  using sendall_addr_value [where csize = 65536 and send_all = False
      and snap2size = 2097152 and prior = 1048576]
    sendall_addr_value [where csize = 65536 and send_all = False
      and snap2size = 1048576 and prior = 1048576]
    sendall_addr_value [where csize = 65536 and send_all = True
      and snap2size = 1048576 and prior = 0]
  by simp

subsection \<open>The session list of the 16-bit dedup indexes\<close>

text \<open>
  C6, as stated, fails: with one volume and 65534 sessions the list is not cut to
  \<open>65535 - 1 - 1 = 65533\<close> entries; all 65534 are indexed.
\<close>

theorem dedup_sessions_not_65535:
  "\<not> length (init_dedup_index4_sessions
        (new_archive_set\<lparr>vols := [(''vm1'', new_volume ''vm1'')],
           allsessions := map (\<lambda>k. (''vm1'', session_at k)) [0..<65534]\<rparr>))
      \<le> 65535 - length [(''vm1'', new_volume ''vm1'')] - 1"
  by (simp add: init_dedup_index4_sessions_def py_slice_to_def ses_w_def)

text \<open>
  C6, amended: with at most 65535 volumes, \<^verbatim>\<open>init_dedup_index4\<close> and
  \<^verbatim>\<open>init_dedup_index5\<close> truncate the global session list to its first
  \<open>65536 - |volumes| - 1 = 65535 - |volumes|\<close> entries before building the index.
\<close>

theorem dedup_sessions_limit:
  "length (vols aset) \<le> 65535 \<Longrightarrow>
     init_dedup_index4_sessions aset = take (65535 - length (vols aset)) (allsessions aset) \<and>
     init_dedup_index5_sessions aset = take (65535 - length (vols aset)) (allsessions aset) \<and>
     length (init_dedup_index4_sessions aset) \<le> 65535 - length (vols aset) \<and>
     length (init_dedup_index5_sessions aset) \<le> 65535 - length (vols aset)"
proof -
  assume a: "length (vols aset) \<le> 65535"
  have "(2::int) ^ (ses_w * 8) - int (length (vols aset)) - 1 = int (65535 - length (vols aset))"
    using a by (simp add: ses_w_def)
  then show ?thesis
    by (simp add: init_dedup_index4_sessions_def init_dedup_index5_sessions_def py_slice_to_def)
qed

theorem dedup_sessions_limit_witness:
  "length (vols (new_archive_set\<lparr>vols := [(''vm1'', new_volume ''vm1'')],
       allsessions := map (\<lambda>k. (''vm1'', session_at k)) [0..<65540]\<rparr>)) \<le> 65535 \<and>
   length (init_dedup_index5_sessions (new_archive_set\<lparr>vols := [(''vm1'', new_volume ''vm1'')],
       allsessions := map (\<lambda>k. (''vm1'', session_at k)) [0..<65540]\<rparr>)) = 65534"
  using dedup_sessions_limit [where aset = "new_archive_set\<lparr>vols := [(''vm1'', new_volume ''vm1'')],
       allsessions := map (\<lambda>k. (''vm1'', session_at k)) [0..<65540]\<rparr>"]
  by simp

subsection \<open>arch-init: the chunk factor\<close>

text \<open>
  For a positive \<^verbatim>\<open>--chunk-factor N\<close> the check of \<^verbatim>\<open>arch_init\<close> does what is
  asked of it: the configuration is saved with chunk size \<open>N * 65536\<close>, a positive
  multiple of \<open>512 * 128\<close> not above 16 MiB, when \<open>N \<le> 256\<close>, and \<^verbatim>\<open>arch_init\<close>
  exits with an error before saving when the chunk size would exceed 16 MiB.
\<close>

lemma arch_init_chfactor_upper_bound:
  "0 < n \<Longrightarrow>
     (n \<le> 256 \<longrightarrow>
        arch_init_chfactor (Some n) aset = Inr (aset\<lparr>chunksize := n * 65536\<rparr>) \<and>
        0 < n * 65536 \<and> (n * 65536) mod (512 * 128) = 0 \<and> n * 65536 \<le> 16 * 1024 * 1024) \<and>
     (256 < n \<longrightarrow>
        arch_init_chfactor (Some n) aset
          = Inl (SystemExit 1 ''Requested chunk size not supported.''))"
  by (simp add: arch_init_chfactor_def bkchunksize_val)

lemma arch_init_chfactor_upper_bound_example:
  "arch_init_chfactor (Some 4) new_archive_set = Inr (new_archive_set\<lparr>chunksize := 262144\<rparr>) \<and>
   arch_init_chfactor (Some 257) new_archive_set
     = Inl (SystemExit 1 ''Requested chunk size not supported.'')"
  using arch_init_chfactor_upper_bound [where n = 4 and aset = new_archive_set]
    arch_init_chfactor_upper_bound [where n = 257 and aset = new_archive_set]
  by simp

text \<open>
  C9 fails on the code: the requested chunk size is checked against the upper bound
  only. \<^verbatim>\<open>--chunk-factor -1\<close> yields the chunk size -65536, which is not positive;
  \<^verbatim>\<open>arch_init\<close> does not exit but saves the configuration with it, and with that
  configuration every \<^verbatim>\<open>send_volume\<close> raises \<^verbatim>\<open>ValueError\<close> at
  \<^verbatim>\<open>bytes(chunksize)\<close>, whatever the volume.
\<close>

theorem arch_init_negative_factor_saved:
  "arch_init_chfactor (Some (- 1)) new_archive_set
     = Inr (new_archive_set\<lparr>chunksize := - 65536\<rparr>) \<and>
   send_volume (new_archive_set\<lparr>chunksize := - 65536\<rparr>) vol snap2size localtime vf mapfile
       compress sha256 dedup_step idx
     = Inl (ValueError ''negative count'')"
  by (simp add: arch_init_chfactor_def bkchunksize_val send_volume_def mapsize_def
      py_floordiv_def Let_def)

subsection \<open>The receive loop\<close>

lemma receive_chunk_line:
  assumes "r_mf st = [cksum, fname, sname] # mf'"
    and "fname = CHR ''x'' # chformat addr"
  shows "receive_chunk env lca st addr =
     (let us = from_bytes_big (take 4 (r_stdout st));
          st1 = st\<lparr>r_addr := Some addr, r_mf := mf', r_stdout := drop 4 (r_stdout st)\<rparr>
      in if cksum = ''0'' then receive_zero_chunk env st1 addr us
         else if us > e_chunksize env + e_chunksize env div 1024 \<or> us < 1
         then Inl (BufferError ''Bad chunk size'')
         else receive_payload env lca st1 addr cksum us)"
  using assms by (simp add: receive_chunk_def Let_def)

lemma receive_chunk_bad_fname:
  assumes "r_mf st = [cksum, fname, sname] # mf'"
    and "fname \<noteq> CHR ''x'' # chformat addr"
  shows "receive_chunk env lca st addr = Inl (ValueError ''Bad fname'')"
  using assms by (simp add: receive_chunk_def Let_def)

lemma receive_payload_not_bad_size:
  "receive_payload env lca st addr cksum us \<noteq> Inl (BufferError ''Bad chunk size'')"
  by (simp add: receive_payload_def Let_def diff_compare_def bmap_or_def
      split: option.split sum.split prod.split)

text \<open>
  C8, amended: during receive, for every manifest entry with a non-zero hash (whose name
  matches the address), a transmitted payload size \<open>s\<close> is accepted exactly when
  \<open>1 \<le> s \<le> C + C div 1024\<close>; any other size, 0 included, aborts the receive with
  \<^verbatim>\<open>BufferError("Bad chunk size")\<close>, whatever the payload, the hash and the
  decompressor are.
\<close>

theorem receive_chunk_size_check:
  assumes "r_mf st = [cksum, fname, sname] # mf'"
    and "fname = CHR ''x'' # chformat addr"
    and "cksum \<noteq> ''0''"
  shows "receive_chunk env lca st addr = Inl (BufferError ''Bad chunk size'')
         \<longleftrightarrow> \<not> (1 \<le> from_bytes_big (take 4 (r_stdout st)) \<and>
                from_bytes_big (take 4 (r_stdout st)) \<le> e_chunksize env + e_chunksize env div 1024)"
  using assms(3) receive_payload_not_bad_size
  by (auto simp add: receive_chunk_line[OF assms(1,2)] Let_def)

lemma chformat_0: "chformat 0 = ''0000000000000000''"
  by (simp add: chformat_def to_hex.simps hexdigit_def chdigits_def replicate_numeral_unfold)

lemma chformat_65536: "chformat 65536 = ''0000000000010000''"
  by (simp add: chformat_def to_hex.simps hexdigit_def chdigits_def replicate_numeral_unfold)

lemma py_range0_two: "py_range0 131072 65536 = [0, 65536]"
  by (simp add: py_range0_def upt_rec)



text \<open>
  C8, as stated, fails: size 0 lies in the claimed range \<open>0 \<le> s \<le> C + C/1024\<close>, but a
  manifest entry with a non-zero hash whose payload size is 0 aborts the receive.
\<close>

theorem receive_size_zero_rejected:
  "(0::int) \<le> 0 \<and> (0::int) \<le> 65536 + 65536 div 1024 \<and>
   receive_chunk example_env 65536
     (recv_init [[''5a'', ''x0000000000000000'', ''S_20190101-000000'']] [0, 0, 0, 0] [] []) 0
     = Inl (BufferError ''Bad chunk size'')"
  by (simp add: receive_chunk_def Let_def recv_init_def example_env_def chformat_0
      from_bytes_big_def)

theorem receive_chunk_size_check_witness:
  "r_mf (recv_init [[''5a'', ''x0000000000000000'', ''S_20190101-000000'']] [0, 0, 1, 0, 90] [] [])
     = [''5a'', ''x0000000000000000'', ''S_20190101-000000''] # [] \<and>
   ''x0000000000000000'' = CHR ''x'' # chformat 0 \<and> ''5a'' \<noteq> ''0'' \<and>
   from_bytes_big (take 4 [0, 0, 1, 0, 90]) = 256 \<and>
   receive_chunk example_env 65536
     (recv_init [[''5a'', ''x0000000000000000'', ''S_20190101-000000'']] [0, 0, 1, 0, 90] [] []) 0
     \<noteq> Inl (BufferError ''Bad chunk size'')"
proof -
  let ?st = "recv_init [[''5a'', ''x0000000000000000'', ''S_20190101-000000'']] [0, 0, 1, 0, 90] [] []"
  have h1: "r_mf ?st = [''5a'', ''x0000000000000000'', ''S_20190101-000000''] # []"
    by (simp add: recv_init_def)
  have h2: "''x0000000000000000'' = CHR ''x'' # chformat 0"
    by (simp add: chformat_0)
  have h3: "''5a'' \<noteq> ''0''"
    by simp
  have s: "from_bytes_big (take 4 [0, 0, 1, 0, 90]) = 256"
    by (simp add: from_bytes_big_def)
  have s': "r_stdout ?st = [0, 0, 1, 0, 90]"
    by (simp add: recv_init_def)
  have c: "e_chunksize example_env = 65536"
    by (simp add: example_env_def)
  from receive_chunk_size_check [OF h1 h2 h3, of example_env 65536]
  have "receive_chunk example_env 65536 ?st 0 \<noteq> Inl (BufferError ''Bad chunk size'')"
    by (simp only: s' s c) simp
  with h1 h2 h3 s show ?thesis by blast
qed

lemma zero_line_cases:
  assumes "length line = 3" "hd line = ''0''"
  obtains fname sname where "line = [''0'', fname, sname]"
proof -
  from assms(1) obtain a b c where "line = [a, b, c]"
    by (metis (no_types) length_0_conv length_Suc_conv numeral_3_eq_3)
  with assms show ?thesis using that by simp
qed

lemma receive_zero_chunk_next:
  assumes "receive_zero_chunk env st addr us = Inr fl"
  shows "\<exists>st'. fl = Next st' \<and> r_rc st' = r_rc st \<and> r_mf st' = r_mf st"
  using assms
  by (auto simp add: receive_zero_chunk_def Let_def diff_compare_def
        split: if_splits sum.splits prod.splits)

lemma receive_zero_chunk_error:
  "receive_zero_chunk env st addr us = Inl e \<Longrightarrow> is_exception e"
  by (auto simp add: receive_zero_chunk_def Let_def diff_compare_def bmap_or_def
        split: if_splits sum.splits prod.splits)

lemma receive_chunk_zero_next:
  assumes "r_mf st = [''0'', fname, sname] # mf'" and "r_rc st = None"
    and "receive_chunk env lca st addr = Inr fl"
  shows "\<exists>st'. fl = Next st' \<and> r_rc st' = None \<and> r_mf st' = mf'"
proof (cases "fname = CHR ''x'' # chformat addr")
  case True
  from assms(3) have "receive_zero_chunk env
      (st\<lparr>r_addr := Some addr, r_mf := mf', r_stdout := drop 4 (r_stdout st)\<rparr>) addr
      (from_bytes_big (take 4 (r_stdout st))) = Inr fl"
    by (simp add: receive_chunk_line[OF assms(1) True] Let_def)
  from receive_zero_chunk_next[OF this] assms(2) show ?thesis by auto
next
  case False
  from receive_chunk_bad_fname[OF assms(1) False] assms(3) show ?thesis by simp
qed

lemma receive_chunk_zero_error:
  assumes "r_mf st = [''0'', fname, sname] # mf'"
    and "receive_chunk env lca st addr = Inl e"
  shows "is_exception e"
proof (cases "fname = CHR ''x'' # chformat addr")
  case True
  from assms(2) have "receive_zero_chunk env
      (st\<lparr>r_addr := Some addr, r_mf := mf', r_stdout := drop 4 (r_stdout st)\<rparr>) addr
      (from_bytes_big (take 4 (r_stdout st))) = Inl e"
    by (simp add: receive_chunk_line[OF assms(1) True] Let_def)
  then show ?thesis by (rule receive_zero_chunk_error)
next
  case False
  from receive_chunk_bad_fname[OF assms(1) False] assms(2) show ?thesis by auto
qed

lemma run_loop_zero_hash:
  "zero_hash_manifest (r_mf st) \<Longrightarrow> r_rc st = None \<Longrightarrow>
   (case run_loop (receive_chunk env lca) st as of
      Inl e \<Rightarrow> is_exception e
    | Inr st' \<Rightarrow> r_rc st' = None)"
proof (induction as arbitrary: st)
  case Nil
  then show ?case by simp
next
  case (Cons a as)
  show ?case
  proof (cases "r_mf st")
    case Nil
    then have "receive_chunk env lca st a = Inl (ValueError ''not enough values to unpack'')"
      by (simp add: receive_chunk_def Let_def)
    then show ?thesis by simp
  next
    case (Cons line mf')
    with Cons.prems(1) have l: "length line = 3" "hd line = ''0''" and m: "zero_hash_manifest mf'"
      by (simp_all add: zero_hash_manifest_def)
    from l obtain fname sname where "line = [''0'', fname, sname]"
      by (rule zero_line_cases)
    with Cons have mf: "r_mf st = [''0'', fname, sname] # mf'" by simp
    show ?thesis
    proof (cases "receive_chunk env lca st a")
      case (Inl e)
      from receive_chunk_zero_error[OF mf Inl] Inl show ?thesis by simp
    next
      case (Inr fl)
      from receive_chunk_zero_next[OF mf Cons.prems(2) Inr]
      obtain st1 where st1: "fl = Next st1" "r_rc st1 = None" "r_mf st1 = mf'"
        by auto
      from Cons.IH[of st1] m st1 Inr show ?thesis by simp
    qed
  qed
qed

lemma from_bytes_big_zeros: "from_bytes_big (replicate n 0) = 0"
proof -
  have "foldl (\<lambda>acc x. acc * 256 + uint (x::byte)) 0 (replicate n 0) = 0"
    by (induction n) simp_all
  then show ?thesis by (simp add: from_bytes_big_def)
qed

lemma receive_zero_chunk_ok:
  "\<not> (e_diff env \<and> e_remap env) \<Longrightarrow>
   \<exists>st'. receive_zero_chunk env st addr 0 = Inr (Next st') \<and> r_mf st' = r_mf st \<and>
         r_stdout st' = r_stdout st"
  by (auto simp add: receive_zero_chunk_def Let_def diff_compare_def)

lemma run_loop_zero_returns:
  assumes nr: "\<not> (e_diff env \<and> e_remap env)"
  shows "r_mf st = map (\<lambda>a. [''0'', CHR ''x'' # chformat a, sn a]) as @ mf' \<Longrightarrow>
     r_stdout st = replicate (4 * length as) 0 @ out' \<Longrightarrow>
     \<exists>st'. run_loop (receive_chunk env lca) st as = Inr st'"
proof (induction as arbitrary: st)
  case Nil
  then show ?case by simp
next
  case (Cons a as)
  let ?st1 = "st\<lparr>r_addr := Some a, r_mf := map (\<lambda>a. [''0'', CHR ''x'' # chformat a, sn a]) as @ mf',
      r_stdout := drop 4 (r_stdout st)\<rparr>"
  from Cons.prems(1)
  have mf: "r_mf st = [''0'', CHR ''x'' # chformat a, sn a]
      # (map (\<lambda>a. [''0'', CHR ''x'' # chformat a, sn a]) as @ mf')"
    by simp
  have t4: "take 4 (r_stdout st) = replicate 4 0"
    by (simp add: Cons.prems(2) min_def)
  have d4: "drop 4 (r_stdout st) = replicate (4 * length as) 0 @ out'"
    by (simp add: Cons.prems(2))
  have step: "receive_chunk env lca st a = receive_zero_chunk env ?st1 a 0"
    by (simp add: receive_chunk_line[OF mf refl] Let_def t4 from_bytes_big_zeros)
  from receive_zero_chunk_ok[OF nr, of ?st1 a]
  obtain st2 where st2: "receive_zero_chunk env ?st1 a 0 = Inr (Next st2)"
    "r_mf st2 = r_mf ?st1" "r_stdout st2 = r_stdout ?st1"
    by blast
  from st2 d4 have "r_mf st2 = map (\<lambda>a. [''0'', CHR ''x'' # chformat a, sn a]) as @ mf'"
    "r_stdout st2 = replicate (4 * length as) 0 @ out'"
    by simp_all
  from Cons.IH[OF this] obtain st' where "run_loop (receive_chunk env lca) st2 as = Inr st'"
    by blast
  with step st2(1) show ?case by simp
qed

text \<open>
  C10: when the merged receive manifest has only zero-hash lines, the data phase of
  \<^verbatim>\<open>receive_volume\<close> never completes: it ends in an exception, in every mode. When
  the lines name the chunk addresses in order and the helper sends size 0 for each (and
  the mode is not diff with remap, which can fail on the map), the loop runs through and
  the exception is the read of the unbound local \<^verbatim>\<open>rc\<close> after the loop.
\<close>

theorem receive_zero_hash_only_raises:
  assumes "zero_hash_manifest mf"
  shows "(\<exists>e. receive_volume_data env (recv_init mf out cmpf bmap) = Inl e \<and> is_exception e) \<and>
         (0 < e_chunksize env \<and> \<not> (e_diff env \<and> e_remap env) \<and>
          mf = map (\<lambda>a. [''0'', CHR ''x'' # chformat a, sn a])
                 (py_range0 (e_volsize env) (e_chunksize env)) \<and>
          out = replicate (4 * length (py_range0 (e_volsize env) (e_chunksize env))) 0
          \<longrightarrow> receive_volume_data env (recv_init mf out cmpf bmap)
                = Inl (UnboundLocalError ''rc''))"
proof (cases "e_chunksize env \<le> 0")
  case True
  then show ?thesis
    by (auto simp add: receive_volume_data_def last_chunk_addr_def py_mod_def)
next
  case False
  define lca where "lca = (e_volsize env - 1) - (e_volsize env - 1) mod e_chunksize env"
  have l: "last_chunk_addr (e_volsize env) (e_chunksize env) = Inr lca"
    using False by (simp add: last_chunk_addr_def py_mod_def lca_def)
  let ?st = "recv_init mf out cmpf bmap"
  let ?as = "py_range0 (e_volsize env) (e_chunksize env)"
  have init: "zero_hash_manifest (r_mf ?st)" "r_rc ?st = None"
    using assms by (simp_all add: recv_init_def)
  have rv: "receive_volume_data env ?st =
      (case run_loop (receive_chunk env lca) ?st ?as of
         Inl e \<Rightarrow> Inl e | Inr st' \<Rightarrow> receive_finish env st')"
    using False l by (simp add: receive_volume_data_def)
  have A: "\<exists>e. receive_volume_data env ?st = Inl e \<and> is_exception e"
  proof (cases "run_loop (receive_chunk env lca) ?st ?as")
    case (Inl e)
    with run_loop_zero_hash[OF init, of env lca ?as] rv show ?thesis by simp
  next
    case (Inr st')
    with run_loop_zero_hash[OF init, of env lca ?as] rv show ?thesis
      by (simp add: receive_finish_def)
  qed
  have B: "receive_volume_data env ?st = Inl (UnboundLocalError ''rc'')"
    if nr: "\<not> (e_diff env \<and> e_remap env)"
      and m: "mf = map (\<lambda>a. [''0'', CHR ''x'' # chformat a, sn a]) ?as"
      and out: "out = replicate (4 * length ?as) 0"
  proof -
    have "r_mf ?st = map (\<lambda>a. [''0'', CHR ''x'' # chformat a, sn a]) ?as @ []"
      "r_stdout ?st = replicate (4 * length ?as) 0 @ []"
      using m out by (simp_all add: recv_init_def)
    from run_loop_zero_returns[OF nr this]
    obtain st' where st': "run_loop (receive_chunk env lca) ?st ?as = Inr st'"
      by blast
    with run_loop_zero_hash[OF init, of env lca ?as] have "r_rc st' = None" by simp
    with rv st' show ?thesis by (simp add: receive_finish_def)
  qed
  from A B show ?thesis by blast
qed

theorem receive_zero_hash_only_raises_witness:
  "zero_hash_manifest
     [[''0'', ''x0000000000000000'', ''S_20190101-000000''],
      [''0'', ''x0000000000010000'', ''S_20190101-000000'']] \<and>
   receive_volume_data example_env
     (recv_init [[''0'', ''x0000000000000000'', ''S_20190101-000000''],
                 [''0'', ''x0000000000010000'', ''S_20190101-000000'']]
        [0, 0, 0, 0, 0, 0, 0, 0] [] [])
     = Inl (UnboundLocalError ''rc'')"
  using receive_zero_hash_only_raises [where env = example_env
      and mf = "[[''0'', ''x0000000000000000'', ''S_20190101-000000''],
                 [''0'', ''x0000000000010000'', ''S_20190101-000000'']]"
      and out = "[0, 0, 0, 0, 0, 0, 0, 0]" and cmpf = "[]" and bmap = "[]"
      and sn = "\<lambda>a. ''S_20190101-000000''"]
  by (simp add: zero_hash_manifest_def example_env_def py_range0_two chformat_0 chformat_65536
      replicate_numeral_unfold)



subsection \<open>Pruning\<close>

lemma py_index_Some: "py_index xs x = Some i \<Longrightarrow> i < length xs \<and> xs ! i = x"
  by (induction xs arbitrary: i) (auto split: if_splits)

lemma last_not_in_take:
  assumes "distinct ss" and "k < length ss" and "ss ! k \<noteq> last ss"
  shows "last ss \<notin> set (take (Suc k) ss)"
proof
  assume "last ss \<in> set (take (Suc k) ss)"
  then obtain j where j: "j < length (take (Suc k) ss)" "take (Suc k) ss ! j = last ss"
    by (auto simp add: in_set_conv_nth)
  then have jk: "j \<le> k" "j < length ss" and e: "ss ! j = last ss"
    using assms(2) by auto
  from assms(2) have "ss \<noteq> []" by auto
  then have "last ss = ss ! (length ss - 1)" by (rule last_conv_nth)
  with e assms(1) jk(2) assms(2) have "j = length ss - 1"
    by (simp add: nth_eq_iff_index_eq)
  with jk assms(2) have "j = k" by simp
  with e assms(3) show False by simp
qed

lemma end_index_excludes_last:
  assumes "distinct ss" and "x \<noteq> last ss"
  shows "last ss \<notin> set (take (case py_index ss x of None \<Rightarrow> 0 | Some i \<Rightarrow> i + 1) ss)"
proof (cases "py_index ss x")
  case None
  then show ?thesis by simp
next
  case (Some i)
  from py_index_Some[OF Some] assms(2) have "i < length ss" "ss ! i \<noteq> last ss" by auto
  from last_not_in_take[OF assms(1) this] Some show ?thesis by simp
qed

lemma select_to_prune_keeps_last:
  assumes d: "distinct ss" and t1: "\<not> t1 \<ge> last ss" and t2: "\<not> t2 \<ge> last ss"
    and sel: "select_to_prune ab t1 t2 ss = Inr tp"
  shows "last ss \<notin> set tp"
proof (cases ab)
  case True
  with sel have tp: "tp = takeWhile (\<lambda>s. \<not> s \<ge> t1) ss"
    by (simp add: select_to_prune_def)
  show ?thesis
  proof
    assume "last ss \<in> set tp"
    with tp have "\<not> last ss \<ge> t1" by (auto dest: set_takeWhileD)
    with t1 show False by simp
  qed
next
  case False
  show ?thesis
  proof (cases "t2 = []")
    case True
    with False sel have "tp = (if t1 \<in> set ss then [t1] else [])"
      by (simp add: select_to_prune_def)
    with t1 show ?thesis by (auto split: if_splits)
  next
    case ne: False
    define e where "e = (if t2 \<in> set ss
               then (case py_index ss t2 of None \<Rightarrow> 0 | Some i \<Rightarrow> i + 1)
               else case find (\<lambda>s. s < t2) (rev ss) of
                      None \<Rightarrow> 0
                    | Some s \<Rightarrow> (case py_index ss s of None \<Rightarrow> 0 | Some i \<Rightarrow> i + 1))"
    define st where "st = (if t1 \<in> set ss then py_index ss t1
               else case find (\<lambda>s. s > t1) ss of
                      None \<Rightarrow> None
                    | Some s \<Rightarrow> py_index ss s)"
    have "select_to_prune ab t1 t2 ss =
        (case st of None \<Rightarrow> Inl (UnboundLocalError ''start'')
         | Some i \<Rightarrow> Inr (drop i (take e ss)))"
      unfolding select_to_prune_def Let_def st_def e_def using False ne by simp
    with sel obtain i where tp: "tp = drop i (take e ss)"
      by (cases st) auto
    have "last ss \<notin> set (take e ss)"
    proof (cases "t2 \<in> set ss")
      case True
      from t2 have "t2 \<noteq> last ss" by auto
      from end_index_excludes_last[OF d this] True show ?thesis by (simp add: e_def)
    next
      case nin: False
      show ?thesis
      proof (cases "find (\<lambda>s. s < t2) (rev ss)")
        case None
        with nin show ?thesis by (simp add: e_def)
      next
        case (Some s)
        then have "s < t2" by (auto simp add: find_Some_iff)
        with t2 have "s \<noteq> last ss" by auto
        from end_index_excludes_last[OF d this] nin Some show ?thesis by (simp add: e_def)
      qed
    qed
    with tp show ?thesis by (auto dest: in_set_dropD)
  qed
qed

lemma prune_sessions_keeps_last:
  assumes "distinct (sesnames vol)"
    and "prune_sessions ab un ok ans vol dtimes = Inr (Prune tp tg)"
  shows "last (sesnames vol) \<notin> set tp"
proof -
  from assms(2) obtain d1 ds where dt: "dtimes = d1 # ds"
    by (cases dtimes) (auto simp add: prune_sessions_def split: if_splits)
  define t1 where "t1 = ''S_'' @ strip d1"
  define t2 where "t2 = (if length dtimes > 1 then ''S_'' @ strip (dtimes ! 1) else [])"
  from assms(2) dt have g: "\<not> (t1 \<ge> last (sesnames vol) \<or> t2 \<ge> last (sesnames vol))"
    unfolding prune_sessions_def Let_def t1_def t2_def
    by (simp split: if_splits)
  from assms(2) dt g have s: "select_to_prune ab t1 t2 (sesnames vol) = Inr tp"
    unfolding prune_sessions_def Let_def t1_def t2_def
    by (simp split: if_splits sum.splits option.splits)
  from g have "\<not> t1 \<ge> last (sesnames vol)" "\<not> t2 \<ge> last (sesnames vol)" by simp_all
  from select_to_prune_keeps_last[OF assms(1) this s] show ?thesis .
qed

lemma prune_sessions_guard:
  assumes "dtimes = d1 # ds"
    and "''S_'' @ strip d1 \<ge> last (sesnames vol) \<or>
         (ds \<noteq> [] \<and> ''S_'' @ strip (hd ds) \<ge> last (sesnames vol))"
  shows "prune_sessions ab un ok ans vol dtimes \<noteq> Inr (Prune tp tg)"
proof -
  from assms(2) have "ds \<noteq> [] \<Longrightarrow> hd ds = (d1 # ds) ! 1" by (cases ds) simp_all
  with assms show ?thesis
    by (auto simp add: prune_sessions_def Let_def
        split: if_splits list.splits sum.splits option.splits)
qed

lemma prune_sessions_guard_message:
  assumes "list_all ok dtimes" and "dtimes = d1 # ds"
    and "ds \<noteq> [] \<longrightarrow> ''S_'' @ strip d1 < ''S_'' @ strip (hd ds)"
    and "2 \<le> length (sesnames vol)"
    and "''S_'' @ strip d1 \<ge> last (sesnames vol) \<or>
         (ds \<noteq> [] \<and> ''S_'' @ strip (hd ds) \<ge> last (sesnames vol))"
  shows "prune_sessions ab un ok ans vol dtimes
           = Inr (NoPrune ''  Cannot prune most recent session; Skipping.'')"
proof -
  have "ds \<noteq> [] \<Longrightarrow> hd ds = (d1 # ds) ! 1" by (cases ds) simp_all
  with assms show ?thesis
    by (auto simp add: prune_sessions_def Let_def)
qed

lemma delete_session_last:
  assumes "vol_last vol = Some sname"
  shows "(\<exists>e. delete_session aset vol sname = Inl e) \<and>
         (sname \<in> dom (map_of (sessions vol)) \<longrightarrow>
            delete_session aset vol sname = Inl (NotImplementedError ''Cannot delete last session''))"
  using assms by (auto simp add: delete_session_def split: option.splits)

text \<open>
  C7: \<^verbatim>\<open>prune_sessions\<close> never removes the most recent session of a volume whose
  session names are distinct. Whatever it selects for \<^verbatim>\<open>merge_sessions\<close> leaves the
  newest session name out; when the first or the second date-time reaches or passes the
  newest session name it does not call \<^verbatim>\<open>merge_sessions\<close> at all, and with valid
  date-times and two sessions or more it returns after the message that the most recent
  session cannot be pruned; and \<^verbatim>\<open>delete_session\<close> raises, deleting nothing, when
  asked for the session named by the volume's \<^verbatim>\<open>last\<close>.
\<close>

theorem prune_never_removes_last:
  assumes "distinct (sesnames vol)"
  shows "(prune_sessions ab un ok ans vol dtimes = Inr (Prune tp tg)
            \<longrightarrow> last (sesnames vol) \<notin> set tp) \<and>
         (dtimes = d1 # ds \<and>
          (''S_'' @ strip d1 \<ge> last (sesnames vol) \<or>
           (ds \<noteq> [] \<and> ''S_'' @ strip (hd ds) \<ge> last (sesnames vol)))
            \<longrightarrow> prune_sessions ab un ok ans vol dtimes \<noteq> Inr (Prune tp tg) \<and>
                (list_all ok dtimes \<and> (ds \<noteq> [] \<longrightarrow> ''S_'' @ strip d1 < ''S_'' @ strip (hd ds)) \<and>
                 2 \<le> length (sesnames vol)
                 \<longrightarrow> prune_sessions ab un ok ans vol dtimes
                       = Inr (NoPrune ''  Cannot prune most recent session; Skipping.''))) \<and>
         (vol_last vol = Some sname
            \<longrightarrow> (\<exists>e. delete_session aset vol sname = Inl e) \<and>
                (sname \<in> dom (map_of (sessions vol)) \<longrightarrow>
                   delete_session aset vol sname
                     = Inl (NotImplementedError ''Cannot delete last session'')))"
proof (intro conjI impI)
  assume "prune_sessions ab un ok ans vol dtimes = Inr (Prune tp tg)"
  with assms show "last (sesnames vol) \<notin> set tp"
    by (rule prune_sessions_keeps_last)
next
  assume g: "dtimes = d1 # ds \<and>
          (''S_'' @ strip d1 \<ge> last (sesnames vol) \<or>
           (ds \<noteq> [] \<and> ''S_'' @ strip (hd ds) \<ge> last (sesnames vol)))"
  then show "prune_sessions ab un ok ans vol dtimes \<noteq> Inr (Prune tp tg)"
    using prune_sessions_guard by blast
  assume "list_all ok dtimes \<and> (ds \<noteq> [] \<longrightarrow> ''S_'' @ strip d1 < ''S_'' @ strip (hd ds)) \<and>
                 2 \<le> length (sesnames vol)"
  with g show "prune_sessions ab un ok ans vol dtimes
                       = Inr (NoPrune ''  Cannot prune most recent session; Skipping.'')"
    using prune_sessions_guard_message by blast
next
  assume l: "vol_last vol = Some sname"
  then show "\<exists>e. delete_session aset vol sname = Inl e"
    using delete_session_last by blast
  assume "sname \<in> dom (map_of (sessions vol))"
  with l show "delete_session aset vol sname
                     = Inl (NotImplementedError ''Cannot delete last session'')"
    using delete_session_last by blast
qed

theorem prune_never_removes_last_witness:
  "distinct (sesnames example_volume) \<and>
   last (sesnames example_volume) = ''S_20190103-000000'' \<and>
   prune_sessions False True datetime_shape [] example_volume [''20190103-000000'']
     = Inr (NoPrune ''  Cannot prune most recent session; Skipping.'') \<and>
   prune_sessions False True datetime_shape [] example_volume [''20190101-000000'']
     = Inr (Prune [''S_20190101-000000''] ''S_20190102-000000'') \<and>
   vol_last example_volume = Some ''S_20190103-000000'' \<and>
   delete_session new_archive_set example_volume ''S_20190103-000000''
     = Inl (NotImplementedError ''Cannot delete last session'')"
proof -
  have d: "distinct (sesnames example_volume)"
    by (simp add: example_volume_def)
  have l: "last (sesnames example_volume) = ''S_20190103-000000''"
    and v: "vol_last example_volume = Some ''S_20190103-000000''"
    and m: "''S_20190103-000000'' \<in> dom (map_of (sessions example_volume))"
    and n: "2 \<le> length (sesnames example_volume)"
    by (simp_all add: example_volume_def)
  have s: "strip ''20190103-000000'' = ''20190103-000000''"
    by (simp add: strip_def isspace_def)
  have ok: "list_all datetime_shape [''20190103-000000'']"
    by (simp add: datetime_shape_def)
  have p: "prune_sessions False True datetime_shape [] example_volume [''20190101-000000'']
     = Inr (Prune [''S_20190101-000000''] ''S_20190102-000000'')"
    by (simp add: prune_sessions_def Let_def example_volume_def datetime_shape_def strip_def
        isspace_def select_to_prune_def)
  note t = prune_never_removes_last [OF d, where ab = False and un = True
      and ok = datetime_shape and ans = "[]" and aset = new_archive_set
      and sname = "''S_20190103-000000''" and ?d1.0 = "''20190103-000000''" and ds = "[]"
      and dtimes = "[''20190103-000000'']"]
  from t l s ok n have "prune_sessions False True datetime_shape [] example_volume [''20190103-000000'']
     = Inr (NoPrune ''  Cannot prune most recent session; Skipping.'')"
    by simp
  moreover from t v m have "delete_session new_archive_set example_volume ''S_20190103-000000''
     = Inl (NotImplementedError ''Cannot delete last session'')"
    by simp
  ultimately show ?thesis using d l p v by simp
qed


subsection \<open>The thin-delta translator\<close>

lemma bmap_or_in_range:
  "0 \<le> i \<Longrightarrow> nat i < length m \<Longrightarrow> bmap_or m i v = Inr (m[nat i := m ! nat i OR v])"
  by (auto simp add: bmap_or_def Let_def)

lemma mark_block_ok:
  assumes q: "0 < csize div 512" and p: "0 \<le> p" and inv: "digest_inv st"
    and r: "nat (p div (csize div 512) div 8) < length (g_bmap_mm st)"
  shows "\<exists>st'. mark_block csize st p = Inr st' \<and> digest_inv st' \<and>
           length (g_bmap_mm st') = length (g_bmap_mm st) \<and>
           pending_map st' = set_chunk_bit (pending_map st) (nat (p div (csize div 512))) \<and>
           g_dnewblocks st' = g_dnewblocks st \<and> g_dfreedblocks st' = g_dfreedblocks st"
proof -
  define v where "v = p div (csize div 512)"
  have v0: "0 \<le> v" using p q by (simp add: v_def pos_imp_zdiv_nonneg_iff)
  have d8: "nat v div 8 = nat (v div 8)" using v0 by (simp add: nat_div_distrib)
  have m8: "nat v mod 8 = nat (v mod 8)" using v0 by (simp add: nat_mod_distrib)
  have fd: "py_floordiv csize bs = Inr (csize div 512)"
    by (simp add: py_floordiv_def bs_def)
  have fd2: "py_floordiv p (csize div 512) = Inr v"
    using q by (simp add: py_floordiv_def v_def)
  from inv have l0: "0 \<le> g_lastindex st" and l1: "nat (g_lastindex st) < length (g_bmap_mm st)"
    by (simp_all add: digest_inv_def)
  from r have r': "nat (v div 8) < length (g_bmap_mm st)" by (simp add: v_def)
  have v8: "0 \<le> v div 8" using v0 by simp
  show ?thesis
  proof (cases "v div 8 = g_lastindex st")
    case True
    then have "mark_block csize st p =
        Inr (st\<lparr>g_bmap_byte := g_bmap_byte st OR push_bit (nat (v mod 8)) 1,
                g_lastindex := v div 8\<rparr>)"
      by (simp add: mark_block_def fd fd2 Let_def)
    moreover have "pending_map (st\<lparr>g_bmap_byte := g_bmap_byte st OR push_bit (nat (v mod 8)) 1,
                g_lastindex := v div 8\<rparr>) = set_chunk_bit (pending_map st) (nat v)"
      using True l1 by (simp add: pending_map_def set_chunk_bit_def d8 m8 ac_simps)
    ultimately show ?thesis using True inv
      by (simp add: digest_inv_def v_def)
  next
    case False
    let ?m = "(g_bmap_mm st)[nat (g_lastindex st) := g_bmap_mm st ! nat (g_lastindex st) OR g_bmap_byte st]"
    from False have "mark_block csize st p =
        Inr (st\<lparr>g_bmap_mm := ?m, g_bmap_byte := 0 OR push_bit (nat (v mod 8)) 1,
                g_lastindex := v div 8\<rparr>)"
      by (simp add: mark_block_def fd fd2 Let_def bmap_or_in_range[OF l0 l1])
    moreover have "pending_map (st\<lparr>g_bmap_mm := ?m, g_bmap_byte := 0 OR push_bit (nat (v mod 8)) 1,
                g_lastindex := v div 8\<rparr>) = set_chunk_bit (pending_map st) (nat v)"
      by (simp add: pending_map_def set_chunk_bit_def d8 m8)
    ultimately show ?thesis using r' v8
      by (simp add: digest_inv_def v_def)
  qed
qed

lemma mark_blocks_ok:
  assumes q: "0 < csize div 512"
  shows "digest_inv st \<Longrightarrow>
     \<forall>p\<in>set ps. 0 \<le> p \<and> nat (p div (csize div 512) div 8) < length (g_bmap_mm st) \<Longrightarrow>
     \<exists>st'. for_each (mark_block csize) st ps = Inr st' \<and> digest_inv st' \<and>
           length (g_bmap_mm st') = length (g_bmap_mm st) \<and>
           pending_map st' =
             foldl set_chunk_bit (pending_map st) (map (\<lambda>p. nat (p div (csize div 512))) ps)"
proof (induction ps arbitrary: st)
  case Nil
  then show ?case by simp
next
  case (Cons p ps)
  from Cons.prems(2) have p: "0 \<le> p" "nat (p div (csize div 512) div 8) < length (g_bmap_mm st)"
    by simp_all
  from mark_block_ok[OF q p(1) Cons.prems(1) p(2)]
  obtain st1 where st1: "mark_block csize st p = Inr st1" "digest_inv st1"
    "length (g_bmap_mm st1) = length (g_bmap_mm st)"
    "pending_map st1 = set_chunk_bit (pending_map st) (nat (p div (csize div 512)))"
    by blast
  from Cons.prems(2) st1(3)
  have "\<forall>p\<in>set ps. 0 \<le> p \<and> nat (p div (csize div 512) div 8) < length (g_bmap_mm st1)"
    by simp
  from Cons.IH[OF st1(2) this] st1 show ?case by simp
qed

lemma pending_map_counters [simp]:
  "pending_map (st\<lparr>g_dnewblocks := a\<rparr>) = pending_map st"
  "pending_map (st\<lparr>g_dfreedblocks := b\<rparr>) = pending_map st"
  by (simp_all add: pending_map_def)

lemma digest_inv_counters [simp]:
  "digest_inv (st\<lparr>g_dnewblocks := a\<rparr>) = digest_inv st"
  "digest_inv (st\<lparr>g_dfreedblocks := b\<rparr>) = digest_inv st"
  by (simp_all add: digest_inv_def)

lemma digest_delta_ok:
  assumes q: "0 < csize div 512" and inv: "digest_inv st"
    and r: "marking_tag (d_tag d) \<longrightarrow>
        (\<forall>p\<in>set (py_range (d_begin d * dblocksize) (d_begin d * dblocksize + d_length d * dblocksize)).
            0 \<le> p \<and> nat (p div (csize div 512) div 8) < length (g_bmap_mm st))"
  shows "\<exists>st'. digest_delta csize dblocksize st d = Inr st' \<and> digest_inv st' \<and>
           length (g_bmap_mm st') = length (g_bmap_mm st) \<and>
           pending_map st' = foldl set_chunk_bit (pending_map st) (delta_chunks csize dblocksize d)"
proof (cases "marking_tag (d_tag d)")
  case False
  with inv show ?thesis
    by (simp add: digest_delta_def delta_chunks_def marking_tag_def Let_def)
next
  case True
  let ?ps = "py_range (d_begin d * dblocksize) (d_begin d * dblocksize + d_length d * dblocksize)"
  from True r have rr: "\<forall>p\<in>set ?ps. 0 \<le> p \<and> nat (p div (csize div 512) div 8) < length (g_bmap_mm st)"
    by simp
  show ?thesis
  proof (cases "d_tag d \<in> {''different'', ''right_only''}")
    case new: True
    let ?st = "st\<lparr>g_dnewblocks := g_dnewblocks st + d_length d * dblocksize\<rparr>"
    have e: "digest_delta csize dblocksize st d = for_each (mark_block csize) ?st ?ps"
      using new by (simp add: digest_delta_def Let_def)
    have i: "digest_inv ?st" using inv by simp
    have "\<forall>p\<in>set ?ps. 0 \<le> p \<and> nat (p div (csize div 512) div 8) < length (g_bmap_mm ?st)"
      using rr by simp
    from mark_blocks_ok[OF q i this] e True show ?thesis
      by (simp add: delta_chunks_def)
  next
    case old: False
    with True have lo: "d_tag d = ''left_only''" by (simp add: marking_tag_def)
    let ?st = "st\<lparr>g_dfreedblocks := g_dfreedblocks st + d_length d * dblocksize\<rparr>"
    have e: "digest_delta csize dblocksize st d = for_each (mark_block csize) ?st ?ps"
      using lo by (simp add: digest_delta_def Let_def)
    have i: "digest_inv ?st" using inv by simp
    have "\<forall>p\<in>set ?ps. 0 \<le> p \<and> nat (p div (csize div 512) div 8) < length (g_bmap_mm ?st)"
      using rr by simp
    from mark_blocks_ok[OF q i this] e True show ?thesis
      by (simp add: delta_chunks_def)
  qed
qed

lemma digest_deltas_ok:
  assumes q: "0 < csize div 512"
  shows "digest_inv st \<Longrightarrow>
     \<forall>d\<in>set ds. marking_tag (d_tag d) \<longrightarrow>
        (\<forall>p\<in>set (py_range (d_begin d * dblocksize) (d_begin d * dblocksize + d_length d * dblocksize)).
            0 \<le> p \<and> nat (p div (csize div 512) div 8) < length (g_bmap_mm st)) \<Longrightarrow>
     \<exists>st'. for_each (digest_delta csize dblocksize) st ds = Inr st' \<and> digest_inv st' \<and>
           length (g_bmap_mm st') = length (g_bmap_mm st) \<and>
           pending_map st' =
             foldl set_chunk_bit (pending_map st) (concat (map (delta_chunks csize dblocksize) ds))"
proof (induction ds arbitrary: st)
  case Nil
  then show ?case by simp
next
  case (Cons d ds)
  from Cons.prems(2) have "marking_tag (d_tag d) \<longrightarrow>
        (\<forall>p\<in>set (py_range (d_begin d * dblocksize) (d_begin d * dblocksize + d_length d * dblocksize)).
            0 \<le> p \<and> nat (p div (csize div 512) div 8) < length (g_bmap_mm st))"
    by simp
  from digest_delta_ok[OF q Cons.prems(1) this]
  obtain st1 where st1: "digest_delta csize dblocksize st d = Inr st1" "digest_inv st1"
    "length (g_bmap_mm st1) = length (g_bmap_mm st)"
    "pending_map st1 = foldl set_chunk_bit (pending_map st) (delta_chunks csize dblocksize d)"
    by blast
  from Cons.prems(2) st1(3)
  have "\<forall>d\<in>set ds. marking_tag (d_tag d) \<longrightarrow>
        (\<forall>p\<in>set (py_range (d_begin d * dblocksize) (d_begin d * dblocksize + d_length d * dblocksize)).
            0 \<le> p \<and> nat (p div (csize div 512) div 8) < length (g_bmap_mm st1))"
    by simp
  from Cons.IH[OF st1(2) this] st1 show ?case by simp
qed

lemma length_set_chunk_bit [simp]: "length (set_chunk_bit m j) = length m"
  by (simp add: set_chunk_bit_def)

lemma map_bit_set_chunk_bit:
  assumes "j div 8 < length m"
  shows "map_bit (set_chunk_bit m j) k \<longleftrightarrow> map_bit m k \<or> k = j"
proof (cases "k div 8 = j div 8")
  case True
  have "k mod 8 < 8" by simp
  have kj: "k = j \<longleftrightarrow> k mod 8 = j mod 8"
    using True by (metis div_mult_mod_eq)
  have "bit (push_bit (j mod 8) (1::byte)) (k mod 8) \<longleftrightarrow> k mod 8 = j mod 8"
    by (auto simp add: push_bit_of_1 bit_exp_iff possible_bit_word)
  with True assms kj show ?thesis
    by (simp add: map_bit_def set_chunk_bit_def bit_or_iff)
next
  case False
  then have "k \<noteq> j" by auto
  with False show ?thesis
    by (simp add: map_bit_def set_chunk_bit_def)
qed

lemma map_bit_foldl:
  "\<forall>j\<in>set js. j div 8 < length m \<Longrightarrow>
   map_bit (foldl set_chunk_bit m js) k \<longleftrightarrow> map_bit m k \<or> k \<in> set js"
proof (induction js arbitrary: m)
  case Nil
  then show ?case by simp
next
  case (Cons j js)
  then have "j div 8 < length m" and "\<forall>i\<in>set js. i div 8 < length (set_chunk_bit m j)"
    by simp_all
  with Cons.IH[of "set_chunk_bit m j"] show ?case
    by (auto simp add: map_bit_set_chunk_bit)
qed

lemma set_py_range: "set (py_range a b) = {a..<b}"
proof -
  have "(\<lambda>k. a + int k) ` {0..<nat (b - a)} = {a..<b}"
  proof (intro set_eqI iffI)
    fix x assume "x \<in> (\<lambda>k. a + int k) ` {0..<nat (b - a)}"
    then show "x \<in> {a..<b}" by auto
  next
    fix x assume x: "x \<in> {a..<b}"
    then have "x = a + int (nat (x - a))" "nat (x - a) \<in> {0..<nat (b - a)}" by auto
    then show "x \<in> (\<lambda>k. a + int k) ` {0..<nat (b - a)}" by (rule image_eqI)
  qed
  then show ?thesis by (simp add: py_range_def)
qed

lemma block_in_chunk:
  assumes "0 < q" and "0 \<le> p"
  shows "nat (p div q) = k \<longleftrightarrow> int k * q \<le> p \<and> p < (int k + 1) * q"
proof -
  have "0 \<le> p div q" using assms by (simp add: pos_imp_zdiv_nonneg_iff)
  then have "nat (p div q) = k \<longleftrightarrow> p div q = int k" by auto
  also have "\<dots> \<longleftrightarrow> int k * q \<le> p \<and> p < (int k + 1) * q"
  proof
    assume e: "p div q = int k"
    have d: "p = p div q * q + p mod q" by simp
    have m: "0 \<le> p mod q" "p mod q < q" using assms(1) by simp_all
    from d e have "p = int k * q + p mod q" by simp
    with m show "int k * q \<le> p \<and> p < (int k + 1) * q"
      by (simp add: algebra_simps)
  next
    assume a: "int k * q \<le> p \<and> p < (int k + 1) * q"
    have "p = q * int k + (p - int k * q)" by simp
    moreover have "0 \<le> p - int k * q" using a by simp
    moreover have "p - int k * q < q" using a by (simp add: algebra_simps)
    ultimately show "p div q = int k" by (rule int_div_pos_eq)
  qed
  finally show ?thesis .
qed

lemma delta_chunks_iff:
  assumes q: "0 < q" and c: "csize = q * 512" and b: "0 \<le> d_begin d * dblocksize"
  shows "k \<in> set (delta_chunks csize dblocksize d) \<longleftrightarrow>
     marking_tag (d_tag d) \<and>
     chunk_intersects csize k (d_begin d * dblocksize * 512)
       ((d_begin d + d_length d) * dblocksize * 512)"
proof (cases "marking_tag (d_tag d)")
  case False
  then show ?thesis by (simp add: delta_chunks_def)
next
  case True
  define B where "B = d_begin d * dblocksize"
  define E where "E = d_begin d * dblocksize + d_length d * dblocksize"
  have cq: "csize div 512 = q" using c by simp
  have "k \<in> set (delta_chunks csize dblocksize d) \<longleftrightarrow>
      (\<exists>p. B \<le> p \<and> p < E \<and> nat (p div q) = k)"
    using True by (auto simp add: delta_chunks_def set_py_range cq B_def E_def)
  also have "\<dots> \<longleftrightarrow> (\<exists>p. B \<le> p \<and> p < E \<and> int k * q \<le> p \<and> p < (int k + 1) * q)"
  proof -
    have "\<forall>p. B \<le> p \<longrightarrow> (nat (p div q) = k) = (int k * q \<le> p \<and> p < (int k + 1) * q)"
      using block_in_chunk[OF q] b by (simp add: B_def)
    then show ?thesis by blast
  qed
  also have "\<dots> \<longleftrightarrow> max B (int k * q) < min E ((int k + 1) * q)"
  proof
    assume "\<exists>p. B \<le> p \<and> p < E \<and> int k * q \<le> p \<and> p < (int k + 1) * q"
    then show "max B (int k * q) < min E ((int k + 1) * q)" by auto
  next
    assume "max B (int k * q) < min E ((int k + 1) * q)"
    then have "B \<le> max B (int k * q) \<and> max B (int k * q) < E \<and>
        int k * q \<le> max B (int k * q) \<and> max B (int k * q) < (int k + 1) * q"
      by auto
    then show "\<exists>p. B \<le> p \<and> p < E \<and> int k * q \<le> p \<and> p < (int k + 1) * q" by blast
  qed
  also have "\<dots> \<longleftrightarrow> chunk_intersects csize k (B * 512) (E * 512)"
  proof -
    have mx: "max (B * 512) (int k * q * 512) = max B (int k * q) * 512"
      by (simp add: max_def)
    have mn: "min (E * 512) ((int k + 1) * q * 512) = min E ((int k + 1) * q) * 512"
      by (simp add: min_def)
    have "chunk_intersects csize k (B * 512) (E * 512) \<longleftrightarrow>
        max (B * 512) (int k * q * 512) < min (E * 512) ((int k + 1) * q * 512)"
      by (simp add: chunk_intersects_def c mult.assoc)
    then show ?thesis by (simp only: mx mn) simp
  qed
  finally show ?thesis using True by (simp add: B_def E_def algebra_simps)
qed

text \<open>
  Within the map the translator does what is asked of it: for a volume with sessions, a
  chunk size that is a positive multiple of 512, and
  marking elements (\<^verbatim>\<open>different\<close>, \<^verbatim>\<open>right_only\<close>, \<^verbatim>\<open>left_only\<close>) that begin
  at a non-negative block and end within the chunks the map covers,
  \<^verbatim>\<open>update_delta_digest\<close> returns, and in the map it leaves, bit \<open>k\<close> is set exactly
  when it was set in the map it opened (the file cut or zero-extended to the map size) or
  chunk \<open>k\<close> intersects the byte range \<open>[begin*dbs*512, (begin+length)*dbs*512)\<close> of a
  marking element. Elements with any other tag, \<^verbatim>\<open>same\<close> among them, change nothing.
\<close>

lemma update_delta_digest_marks:
  assumes ses: "sessions vol \<noteq> []"
    and c0: "0 < chunksize aset" and c512: "chunksize aset mod 512 = 0"
    and s0: "0 < snap2size" and db: "0 \<le> dblocksize"
    and rng: "\<forall>d\<in>set deltas. marking_tag (d_tag d) \<longrightarrow>
        0 \<le> d_begin d \<and>
        (d_begin d + d_length d) * dblocksize * 512
          \<le> 8 * (snap2size div chunksize aset div 8 + 1) * chunksize aset"
  shows "\<exists>changed m0 m'.
     ftruncate mapfile (snap2size div chunksize aset div 8 + 1) = Inr m0 \<and>
     update_delta_digest aset vol snap2size dblocksize deltas mapfile = Inr (changed, m') \<and>
     length m' = length m0 \<and>
     (\<forall>k. k < 8 * length m0 \<longrightarrow>
        (map_bit m' k \<longleftrightarrow>
           map_bit m0 k \<or>
           (\<exists>d\<in>set deltas. marking_tag (d_tag d) \<and>
              chunk_intersects (chunksize aset) k (d_begin d * dblocksize * 512)
                ((d_begin d + d_length d) * dblocksize * 512))))"
proof -
  define c where "c = chunksize aset"
  define q where "q = c div 512"
  define msize where "msize = snap2size div c div 8 + 1"
  have cq: "c = q * 512"
    using c512 div_mult_mod_eq[of "chunksize aset" 512] by (simp add: q_def c_def)
  have q0: "0 < q" using c0 cq by (simp add: c_def)
  have q0': "0 < c div 512" using q0 by (simp add: q_def)
  have ms0: "0 < msize"
  proof -
    have "0 \<le> snap2size div c" using s0 c0 by (simp add: c_def pos_imp_zdiv_nonneg_iff)
    then have "0 \<le> snap2size div c div 8" by simp
    then show ?thesis by (simp add: msize_def)
  qed
  define m0 where "m0 = take (nat msize) mapfile @ replicate (nat msize - length mapfile) 0"
  have ft: "ftruncate mapfile msize = Inr m0"
    using ms0 by (simp add: ftruncate_def m0_def)
  have len0: "length m0 = nat msize" by (simp add: m0_def)
  have ne: "m0 \<noteq> []" using len0 ms0 by auto
  have mp: "mapsize aset vol (Some snap2size) = Inr msize"
    using s0 c0 by (simp add: mapsize_def py_floordiv_def msize_def c_def)
  let ?st0 = "\<lparr>g_bmap_mm = m0, g_lastindex = 0, g_bmap_byte = 0,
                g_dnewblocks = 0, g_dfreedblocks = 0\<rparr>"
  have inv0: "digest_inv ?st0" using ne by (simp add: digest_inv_def)
  have pend0: "pending_map ?st0 = m0" by (simp add: pending_map_def)
  have inr: "0 \<le> p \<and> nat (p div q div 8) < length m0"
    if d: "d \<in> set deltas" and mk: "marking_tag (d_tag d)"
      and p: "p \<in> set (py_range (d_begin d * dblocksize)
                    (d_begin d * dblocksize + d_length d * dblocksize))" for d p
  proof -
    from rng d mk have b0: "0 \<le> d_begin d"
      and e: "(d_begin d + d_length d) * dblocksize * 512 \<le> 8 * msize * c"
      by (simp_all add: msize_def c_def)
    from p have pb: "d_begin d * dblocksize \<le> p"
      and pe: "p < d_begin d * dblocksize + d_length d * dblocksize"
      by (simp_all add: set_py_range)
    from b0 db pb have p0: "0 \<le> p" by (meson mult_nonneg_nonneg order_trans)
    from e have "(d_begin d * dblocksize + d_length d * dblocksize) * 512 \<le> (8 * msize * q) * 512"
      by (simp add: cq algebra_simps)
    then have "d_begin d * dblocksize + d_length d * dblocksize \<le> 8 * msize * q" by simp
    with pe have "p < (8 * msize) * q" by simp
    moreover have "p div q * q \<le> p"
      using q0 div_mult_mod_eq[of p q] pos_mod_sign[of q p] by linarith
    ultimately have "p div q * q < (8 * msize) * q" by linarith
    then have "p div q < 8 * msize" using q0 by (simp only: mult_less_cancel_right_pos)
    then have "p div q div 8 < msize" by simp
    moreover have "0 \<le> p div q div 8" using p0 q0 by (simp add: pos_imp_zdiv_nonneg_iff)
    ultimately have "nat (p div q div 8) < nat msize" by simp
    with p0 len0 show ?thesis by simp
  qed
  have r: "\<forall>d\<in>set deltas. marking_tag (d_tag d) \<longrightarrow>
        (\<forall>p\<in>set (py_range (d_begin d * dblocksize) (d_begin d * dblocksize + d_length d * dblocksize)).
            0 \<le> p \<and> nat (p div (c div 512) div 8) < length (g_bmap_mm ?st0))"
    using inr by (simp add: q_def)
  from digest_deltas_ok[OF q0' inv0 r]
  obtain st' where st': "for_each (digest_delta c dblocksize) ?st0 deltas = Inr st'"
    "digest_inv st'" "length (g_bmap_mm st') = length m0"
    "pending_map st' = foldl set_chunk_bit m0 (concat (map (delta_chunks c dblocksize) deltas))"
    using pend0 by auto
  from st'(2) have fl: "bmap_or (g_bmap_mm st') (g_lastindex st') (g_bmap_byte st') = Inr (pending_map st')"
    by (simp add: digest_inv_def bmap_or_in_range pending_map_def)
  have upd: "update_delta_digest aset vol snap2size dblocksize deltas mapfile
      = Inr (g_dnewblocks st' + g_dfreedblocks st' > 0, pending_map st')"
    using ses mp ft ne st'(1) fl by (simp add: update_delta_digest_def c_def)
  have lenp: "length (pending_map st') = length m0"
    using st'(3) by (simp add: pending_map_def)
  have inm: "\<forall>j\<in>set (concat (map (delta_chunks c dblocksize) deltas)). j div 8 < length m0"
  proof
    fix j assume "j \<in> set (concat (map (delta_chunks c dblocksize) deltas))"
    then obtain d where d: "d \<in> set deltas" and j: "j \<in> set (delta_chunks c dblocksize d)"
      by auto
    from j have mk: "marking_tag (d_tag d)" by (auto simp add: delta_chunks_def split: if_splits)
    with j obtain p where p: "p \<in> set (py_range (d_begin d * dblocksize)
                    (d_begin d * dblocksize + d_length d * dblocksize))"
      and jp: "j = nat (p div q)"
      by (auto simp add: delta_chunks_def q_def)
    from inr[OF d mk p] have p0: "0 \<le> p" and b: "nat (p div q div 8) < length m0" by simp_all
    have "0 \<le> p div q" using p0 q0 by (simp add: pos_imp_zdiv_nonneg_iff)
    then have "nat (p div q) div 8 = nat (p div q div 8)" by (simp add: nat_div_distrib)
    with b jp show "j div 8 < length m0" by simp
  qed
  have bits: "map_bit (pending_map st') k \<longleftrightarrow>
           map_bit m0 k \<or>
           (\<exists>d\<in>set deltas. marking_tag (d_tag d) \<and>
              chunk_intersects c k (d_begin d * dblocksize * 512)
                ((d_begin d + d_length d) * dblocksize * 512))" for k
  proof -
    have "map_bit (pending_map st') k \<longleftrightarrow>
        map_bit m0 k \<or> k \<in> set (concat (map (delta_chunks c dblocksize) deltas))"
      using map_bit_foldl[OF inm] st'(4) by simp
    also have "k \<in> set (concat (map (delta_chunks c dblocksize) deltas)) \<longleftrightarrow>
        (\<exists>d\<in>set deltas. k \<in> set (delta_chunks c dblocksize d))"
      by auto
    also have "\<dots> \<longleftrightarrow> (\<exists>d\<in>set deltas. marking_tag (d_tag d) \<and>
              chunk_intersects c k (d_begin d * dblocksize * 512)
                ((d_begin d + d_length d) * dblocksize * 512))"
    proof (intro bex_cong refl)
      fix d assume d: "d \<in> set deltas"
      show "k \<in> set (delta_chunks c dblocksize d) \<longleftrightarrow> marking_tag (d_tag d) \<and>
              chunk_intersects c k (d_begin d * dblocksize * 512)
                ((d_begin d + d_length d) * dblocksize * 512)"
      proof (cases "marking_tag (d_tag d)")
        case False
        then show ?thesis by (simp add: delta_chunks_def)
      next
        case True
        with rng d db have "0 \<le> d_begin d * dblocksize" by simp
        from delta_chunks_iff[OF q0 cq this] show ?thesis .
      qed
    qed
    finally show ?thesis .
  qed
  from ft upd lenp bits show ?thesis
    unfolding msize_def c_def by blast
qed

lemma update_delta_digest_marks_example:
  "sessions example_volume \<noteq> [] \<and> 0 < chunksize new_archive_set \<and>
   chunksize new_archive_set mod 512 = 0 \<and> (0::int) < 131072 \<and> (0::int) \<le> 128 \<and>
   marking_tag ''different'' \<and> \<not> marking_tag ''same'' \<and> (0::int) \<le> 1 \<and>
   ((1::int) + 1) * 128 * 512 \<le> 8 * (131072 div chunksize new_archive_set div 8 + 1)
       * chunksize new_archive_set \<and>
   update_delta_digest new_archive_set example_volume 131072 128
     [\<lparr>d_tag = ''different'', d_begin = 1, d_length = 1\<rparr>,
      \<lparr>d_tag = ''same'', d_begin = 0, d_length = 1\<rparr>] [0]
     = Inr (True, [2]) \<and>
   map_bit [2] 1 \<and> \<not> map_bit [2] 0 \<and>
   chunk_intersects (chunksize new_archive_set) 1 (1 * 128 * 512) ((1 + 1) * 128 * 512) \<and>
   \<not> chunk_intersects (chunksize new_archive_set) 0 (1 * 128 * 512) ((1 + 1) * 128 * 512)"
proof -
  let ?ds = "[\<lparr>d_tag = ''different'', d_begin = 1, d_length = 1\<rparr>,
      \<lparr>d_tag = ''same'', d_begin = 0, d_length = 1\<rparr>]"
  have c: "chunksize new_archive_set = 65536"
    by (simp add: new_archive_set_def bkchunksize_val)
  have h1: "sessions example_volume \<noteq> []" by (simp add: example_volume_def)
  have h2: "0 < chunksize new_archive_set" and h3: "chunksize new_archive_set mod 512 = 0"
    by (simp_all add: c)
  have h4: "(0::int) < 131072" and h5: "(0::int) \<le> 128" by simp_all
  have h6: "\<forall>d\<in>set ?ds. marking_tag (d_tag d) \<longrightarrow>
        0 \<le> d_begin d \<and>
        (d_begin d + d_length d) * 128 * 512
          \<le> 8 * (131072 div chunksize new_archive_set div 8 + 1) * chunksize new_archive_set"
    by (simp add: c marking_tag_def)
  have ft: "ftruncate [0] (131072 div chunksize new_archive_set div 8 + 1) = Inr [0]"
    by (simp add: c ftruncate_def)
  from update_delta_digest_marks [OF h1 h2 h3 h4 h5 h6, of "[0]"] ft
  obtain changed m' where r: "update_delta_digest new_archive_set example_volume 131072 128 ?ds [0]
      = Inr (changed, m')" "length m' = 1"
    and b: "\<forall>k<8. map_bit m' k \<longleftrightarrow> map_bit [0] k \<or>
           (\<exists>d\<in>set ?ds. marking_tag (d_tag d) \<and>
              chunk_intersects (chunksize new_archive_set) k (d_begin d * 128 * 512)
                ((d_begin d + d_length d) * 128 * 512))"
    by auto
  have ev: "update_delta_digest new_archive_set example_volume 131072 128 ?ds [0] = Inr (True, [2])"
    by (simp add: update_delta_digest_def example_volume_def new_archive_set_def bkchunksize_val
      mapsize_def py_floordiv_def ftruncate_def digest_delta_def py_range_def upt_rec
      mark_block_def bs_def bmap_or_def Let_def)
  with r have m: "m' = [2]" by simp
  from b have b1: "map_bit m' 1 \<longleftrightarrow> map_bit [0] 1 \<or>
           (\<exists>d\<in>set ?ds. marking_tag (d_tag d) \<and>
              chunk_intersects (chunksize new_archive_set) 1 (d_begin d * 128 * 512)
                ((d_begin d + d_length d) * 128 * 512))"
    by simp
  have i1: "chunk_intersects (chunksize new_archive_set) 1 (1 * 128 * 512) ((1 + 1) * 128 * 512)"
    and i0: "\<not> chunk_intersects (chunksize new_archive_set) 0 (1 * 128 * 512) ((1 + 1) * 128 * 512)"
    by (simp_all add: chunk_intersects_def c)
  have mt: "marking_tag ''different''" "\<not> marking_tag ''same''"
    by (simp_all add: marking_tag_def)
  from b1 m i1 mt have "map_bit [2] 1" by simp
  moreover have "\<not> map_bit [2] 0" by (simp add: map_bit_def)
  ultimately show ?thesis using h1 h2 h3 ev i1 i0 mt c by simp
qed

text \<open>
  C5 fails on the code: the map is sized from the new snapshot only. After a volume of
  64 KiB chunks shrank from 8 MiB to 4 MiB, the map file of 17 bytes is cut to 9 bytes,
  which cover chunks 0 to 71. A \<^verbatim>\<open>left_only\<close> element for thin block 72 (blocks of
  128 sectors), which the volume had before it shrank, sets no bit:
  \<^verbatim>\<open>update_delta_digest\<close> raises \<^verbatim>\<open>IndexError\<close> at
  \<^verbatim>\<open>bmap_mm[lastindex] |= bmap_byte\<close>, and no map is left.
\<close>

theorem update_delta_digest_past_map:
  "update_delta_digest new_archive_set shrunk_volume 4194304 128
     [\<lparr>d_tag = ''left_only'', d_begin = 72, d_length = 1\<rparr>] (replicate 17 0)
   = Inl IndexError"
  by (simp add: update_delta_digest_def shrunk_volume_def new_archive_set_def bkchunksize_val
      mapsize_def py_floordiv_def ftruncate_def digest_delta_def py_range_def upt_rec
      mark_block_def bs_def bmap_or_def Let_def)

subsection \<open>The send loop\<close>

lemma py_range0_member:
  assumes c: "0 < c" and a: "a \<in> set (py_range0 n c)"
  shows "0 \<le> a" and "a < n" and "a mod c = 0" and "a \<le> (n - 1) - (n - 1) mod c"
proof -
  from a have "a \<in> (\<lambda>k. int k * c) ` {0..<nat ((n + c - 1) div c)}"
    by (simp add: py_range0_def)
  then obtain k where k0: "a = int k * c" "k \<in> {0..<nat ((n + c - 1) div c)}"
    by (rule imageE)
  then have k: "a = int k * c" "k < nat ((n + c - 1) div c)" by simp_all
  from k(1) c show "0 \<le> a" by simp
  from k(1) show m: "a mod c = 0" by simp
  from k(2) have "int k + 1 \<le> (n + c - 1) div c" by linarith
  then have "(int k + 1) * c \<le> (n + c - 1) div c * c"
    using c by (simp only: mult_le_cancel_right_pos)
  also have "\<dots> \<le> n + c - 1"
    using c div_mult_mod_eq[of "n + c - 1" c] pos_mod_sign[of c "n + c - 1"] by linarith
  finally have "int k * c + c \<le> n + c - 1" by (simp add: algebra_simps)
  with k(1) show n: "a < n" by simp
  have d: "n - 1 = (n - 1) div c * c + (n - 1) mod c" by simp
  have "int k * c \<le> n - 1" using n k(1) by simp
  then have "int k * c < (n - 1) div c * c + c"
    using d pos_mod_bound[OF c, of "n - 1"] by linarith
  also have "\<dots> = ((n - 1) div c + 1) * c" by (simp add: algebra_simps)
  finally have "int k * c < ((n - 1) div c + 1) * c" .
  then have "int k < (n - 1) div c + 1" using c by (simp only: mult_less_cancel_right_pos)
  then have "int k * c \<le> (n - 1) div c * c" using c by simp
  with d k(1) show "a \<le> (n - 1) - (n - 1) mod c" by linarith
qed

lemma chunk_full_before_last:
  assumes c: "0 < c" and a: "a \<in> set (py_range0 n c)" and l: "length vf = nat n"
    and lt: "a < (n - 1) - (n - 1) mod c"
  shows "length (chunk_bytes c vf a) = nat c"
proof -
  define lca where "lca = (n - 1) - (n - 1) mod c"
  have lm: "lca mod c = 0" by (simp add: lca_def minus_mod_eq_mult_div)
  from py_range0_member[OF c a] have a0: "0 \<le> a" and am: "a mod c = 0" by simp_all
  from am lm obtain i j where ij: "a = i * c" "lca = j * c"
    by (metis mod_eq_0_iff_dvd dvd_def mult.commute)
  with lt c have "i < j" by (simp add: lca_def[symmetric])
  then have "i + 1 \<le> j" by simp
  then have "(i + 1) * c \<le> j * c" using c by (simp only: mult_le_cancel_right_pos)
  with ij have "a + c \<le> lca" by (simp add: algebra_simps)
  moreover have "lca \<le> n - 1" using pos_mod_sign[OF c, of "n - 1"] by (simp add: lca_def)
  ultimately have "a + c \<le> n" by simp
  with a0 c l show ?thesis by (simp add: chunk_bytes_def)
qed

lemma zero_test_iff:
  assumes c: "0 < c" and a: "a \<in> set (py_range0 n c)" and l: "length vf = nat n"
  shows "(chunk_bytes c vf a = replicate (nat c) 0 \<and> a < (n - 1) - (n - 1) mod c)
         \<longleftrightarrow> chunk_zero c ((n - 1) - (n - 1) mod c) vf a"
proof
  assume "chunk_bytes c vf a = replicate (nat c) 0 \<and> a < (n - 1) - (n - 1) mod c"
  then show "chunk_zero c ((n - 1) - (n - 1) mod c) vf a"
    by (simp add: chunk_zero_def list_all_iff)
next
  assume z: "chunk_zero c ((n - 1) - (n - 1) mod c) vf a"
  with py_range0_member(4)[OF c a] have lt: "a < (n - 1) - (n - 1) mod c"
    by (simp add: chunk_zero_def)
  from chunk_full_before_last[OF c a l lt] have "length (chunk_bytes c vf a) = nat c" .
  moreover from z have "\<forall>x\<in>set (chunk_bytes c vf a). x = 0"
    by (simp add: chunk_zero_def list_all_iff)
  ultimately have "chunk_bytes c vf a = replicate (nat c) 0"
    using replicate_length_same[of "chunk_bytes c vf a" 0] by simp
  with lt show "chunk_bytes c vf a = replicate (nat c) 0 \<and> a < (n - 1) - (n - 1) mod c"
    by simp
qed

lemma bit_test_iff:
  assumes c: "0 < c" and a0: "0 \<le> a" and r: "nat (a div c div 8) < length bmap"
  shows "bmap_get bmap (a div c div 8) = Inr (bmap ! (nat (a div c) div 8))"
    and "(bmap ! (nat (a div c) div 8) AND push_bit (nat (a div c mod 8)) 1 \<noteq> 0)
         \<longleftrightarrow> map_bit bmap (nat (a div c))"
proof -
  have v0: "0 \<le> a div c" using c a0 by (simp add: pos_imp_zdiv_nonneg_iff)
  have d8: "nat (a div c) div 8 = nat (a div c div 8)" using v0 by (simp add: nat_div_distrib)
  have m8: "nat (a div c) mod 8 = nat (a div c mod 8)" using v0 by (simp add: nat_mod_distrib)
  have "0 \<le> a div c div 8" using v0 by simp
  with r show "bmap_get bmap (a div c div 8) = Inr (bmap ! (nat (a div c) div 8))"
    by (simp add: bmap_get_def Let_def d8)
  have "(x AND push_bit k 1 \<noteq> 0) \<longleftrightarrow> bit x k" for x :: byte and k
    by (simp add: and_exp_eq_0_iff_not_bit push_bit_of_1)
  then show "(bmap ! (nat (a div c) div 8) AND push_bit (nat (a div c mod 8)) 1 \<noteq> 0)
         \<longleftrightarrow> map_bit bmap (nat (a div c))"
    by (simp add: map_bit_def m8)
qed

lemma select_test:
  assumes c: "0 < c" and a0: "0 \<le> a"
    and bm: "a < sa \<longrightarrow> nat (a div c div 8) < length bmap"
  shows "(if a \<ge> sa then Inr True
          else case bmap_get bmap (a div c div 8) of
                 Inl e \<Rightarrow> Inl e
               | Inr x \<Rightarrow> Inr (x AND push_bit (nat (a div c mod 8)) 1 \<noteq> 0))
         = (Inr (chunk_emitted sa c bmap a) :: py_error + bool)"
proof (cases "a \<ge> sa")
  case True
  then show ?thesis by (simp add: chunk_emitted_def)
next
  case False
  with bm have r: "nat (a div c div 8) < length bmap" by simp
  from False bit_test_iff[OF c a0 r] show ?thesis
    by (simp add: chunk_emitted_def)
qed

lemma send_chunk_cases:
  assumes c: "0 < c" and a: "a \<in> set (py_range0 n c)" and l: "length vf = nat n"
    and bm: "a < sa \<longrightarrow> nat (a div c div 8) < length bmap"
    and e: "v_chunksize env = c" "v_sendall_addr env = sa"
      "v_lchunk_addr env = (n - 1) - (n - 1) mod c" "v_vf env = vf" "v_bmap_mm env = bmap"
      "v_sdir env = sdir" "v_compress env = Some compress" "v_compresslevel env = lvl"
      "v_sha256 env = sha" "v_ses env = ses"
  shows "send_chunk env st a =
     (if \<not> chunk_emitted sa c bmap a then Inr (Next st)
      else if chunk_zero c ((n - 1) - (n - 1) mod c) vf a
      then Inr (Next (st\<lparr>s_stream_started := True,
                 s_manifest := s_manifest st
                   @ [manifest_line c ((n - 1) - (n - 1) mod c) vf compress lvl sha a]\<rparr>))
      else if lvl < - 1 \<or> 9 < lvl then Inl ZlibError
      else
        (case v_dedup_step env (s_dedup st) (sha (compress (chunk_bytes c vf a) lvl)) a of
           Inl e \<Rightarrow> Inl e
         | Inr (idx, found) \<Rightarrow>
             Inr (Next (st\<lparr>s_stream_started := True,
                 s_manifest := s_manifest st
                   @ [manifest_line c ((n - 1) - (n - 1) mod c) vf compress lvl sha a],
                 s_dedup := idx,
                 s_tar := s_tar st @ [chunk_entry sdir ses c vf compress lvl a found],
                 s_bcount := s_bcount st
                   + (if found = None then int (length (compress (chunk_bytes c vf a) lvl)) else 0),
                 s_ddbytes := s_ddbytes st
                   + (if found = None then 0 else int (length (compress (chunk_bytes c vf a) lvl)))\<rparr>))))"
proof -
  from py_range0_member[OF c a] have a0: "0 \<le> a" by simp
  note sel = select_test[OF c a0 bm]
  note zt = zero_test_iff[OF c a l]
  show ?thesis
  proof (cases "chunk_emitted sa c bmap a")
    case False
    show ?thesis
      unfolding send_chunk_def Let_def e sel using False by simp
  next
    case em: True
    show ?thesis
    proof (cases "chunk_zero c ((n - 1) - (n - 1) mod c) vf a")
      case True
      with zt have z: "(take (nat c) (drop (nat a) vf) = replicate (nat c) 0 \<and>
          a < (n - 1) - (n - 1) mod c) = True"
        by (simp add: chunk_bytes_def)
      show ?thesis
        unfolding send_chunk_def Let_def e sel z using em True
        by (simp add: manifest_line_def)
    next
      case False
      with zt have z: "(take (nat c) (drop (nat a) vf) = replicate (nat c) 0 \<and>
          a < (n - 1) - (n - 1) mod c) = False"
        by (simp add: chunk_bytes_def)
      show ?thesis
        unfolding send_chunk_def Let_def e sel z using em False
        by (simp add: chunk_bytes_def manifest_line_def chunk_path_def chunk_entry_def
            split: sum.split option.split prod.split)
    qed
  qed
qed


lemma send_loop_result:
  assumes c: "0 < c" and l: "length vf = nat n"
    and e: "v_chunksize env = c" "v_sendall_addr env = sa"
      "v_lchunk_addr env = (n - 1) - (n - 1) mod c" "v_vf env = vf" "v_bmap_mm env = bmap"
      "v_sdir env = sdir" "v_compress env = Some compress" "v_compresslevel env = lvl"
      "v_sha256 env = sha" "v_ses env = ses"
  shows "\<forall>a\<in>set as. a \<in> set (py_range0 n c) \<and> (a < sa \<longrightarrow> nat (a div c div 8) < length bmap) \<Longrightarrow>
     run_loop (send_chunk env) st as = Inr st' \<Longrightarrow>
     s_manifest st' = s_manifest st
        @ map (manifest_line c ((n - 1) - (n - 1) mod c) vf compress lvl sha)
            (filter (chunk_emitted sa c bmap) as) \<and>
     (\<exists>found.
        dedup_lookups (v_dedup_step env) (s_dedup st)
          (map (\<lambda>a. (sha (compress (chunk_bytes c vf a) lvl), a))
             (filter (\<lambda>a. chunk_emitted sa c bmap a \<and> \<not> chunk_zero c ((n - 1) - (n - 1) mod c) vf a) as))
          = Inr found \<and>
        length found
          = length (filter (\<lambda>a. chunk_emitted sa c bmap a \<and> \<not> chunk_zero c ((n - 1) - (n - 1) mod c) vf a) as) \<and>
        s_tar st' = s_tar st
          @ map2 (chunk_entry sdir ses c vf compress lvl)
              (filter (\<lambda>a. chunk_emitted sa c bmap a \<and> \<not> chunk_zero c ((n - 1) - (n - 1) mod c) vf a) as)
              found)"
proof (induction as arbitrary: st)
  case Nil
  then show ?case by simp
next
  case (Cons a as)
  let ?lca = "(n - 1) - (n - 1) mod c"
  let ?data = "\<lambda>as. filter (\<lambda>a. chunk_emitted sa c bmap a \<and> \<not> chunk_zero c ?lca vf a) as"
  let ?dg = "\<lambda>a. (sha (compress (chunk_bytes c vf a) lvl), a)"
  from Cons.prems(1) have a: "a \<in> set (py_range0 n c)"
    and bm: "a < sa \<longrightarrow> nat (a div c div 8) < length bmap"
    and rest: "\<forall>a\<in>set as. a \<in> set (py_range0 n c) \<and> (a < sa \<longrightarrow> nat (a div c div 8) < length bmap)"
    by simp_all
  note sc = send_chunk_cases[OF c a l bm e, of st]
  show ?case
  proof (cases "chunk_emitted sa c bmap a")
    case False
    with sc have "send_chunk env st a = Inr (Next st)" by simp
    with Cons.prems(2) have "run_loop (send_chunk env) st as = Inr st'" by simp
    from Cons.IH[OF rest this] False show ?thesis by simp
  next
    case em: True
    show ?thesis
    proof (cases "chunk_zero c ?lca vf a")
      case True
      let ?st1 = "st\<lparr>s_stream_started := True,
                 s_manifest := s_manifest st
                   @ [manifest_line c ?lca vf compress lvl sha a]\<rparr>"
      from sc em True have "send_chunk env st a = Inr (Next ?st1)" by simp
      with Cons.prems(2) have "run_loop (send_chunk env) ?st1 as = Inr st'" by simp
      from Cons.IH[OF rest this] em True show ?thesis by simp
    next
      case nz: False
      from sc em nz Cons.prems(2) have lv: "\<not> (lvl < - 1 \<or> 9 < lvl)"
        by (auto split: if_splits)
      from sc em nz lv Cons.prems(2) obtain idx fnd where
        stp: "v_dedup_step env (s_dedup st) (sha (compress (chunk_bytes c vf a) lvl)) a
              = Inr (idx, fnd)"
        by (auto split: sum.splits)
      define st1 where "st1 = st\<lparr>s_stream_started := True,
                 s_manifest := s_manifest st @ [manifest_line c ?lca vf compress lvl sha a],
                 s_dedup := idx,
                 s_tar := s_tar st @ [chunk_entry sdir ses c vf compress lvl a fnd],
                 s_bcount := s_bcount st
                   + (if fnd = None then int (length (compress (chunk_bytes c vf a) lvl)) else 0),
                 s_ddbytes := s_ddbytes st
                   + (if fnd = None then 0 else int (length (compress (chunk_bytes c vf a) lvl)))\<rparr>"
      from sc em nz lv stp have s1: "send_chunk env st a = Inr (Next st1)"
        by (simp add: st1_def)
      from Cons.prems(2) s1 have "run_loop (send_chunk env) st1 as = Inr st'" by simp
      from Cons.IH[OF rest this] obtain found where
        m: "s_manifest st' = s_manifest st1
            @ map (manifest_line c ?lca vf compress lvl sha) (filter (chunk_emitted sa c bmap) as)"
        and d: "dedup_lookups (v_dedup_step env) (s_dedup st1) (map ?dg (?data as)) = Inr found"
        and n: "length found = length (?data as)"
        and t: "s_tar st' = s_tar st1 @ map2 (chunk_entry sdir ses c vf compress lvl) (?data as) found"
        by blast
      have d': "dedup_lookups (v_dedup_step env) (s_dedup st) (map ?dg (?data (a # as)))
          = Inr (fnd # found)"
        using em nz stp d by (simp add: st1_def)
      have n': "length (fnd # found) = length (?data (a # as))"
        using em nz n by simp
      have t': "s_tar st' = s_tar st
          @ map2 (chunk_entry sdir ses c vf compress lvl) (?data (a # as)) (fnd # found)"
        using em nz t by (simp add: st1_def)
      have m': "s_manifest st' = s_manifest st
        @ map (manifest_line c ?lca vf compress lvl sha) (filter (chunk_emitted sa c bmap) (a # as))"
        using em m by (simp add: st1_def)
      from m' d' n' t' show ?thesis by blast
    qed
  qed
qed

lemma send_loop_completes:
  assumes c: "0 < c" and l: "length vf = nat n"
    and e: "v_chunksize env = c" "v_sendall_addr env = sa"
      "v_lchunk_addr env = (n - 1) - (n - 1) mod c" "v_vf env = vf" "v_bmap_mm env = bmap"
      "v_sdir env = sdir" "v_compress env = Some compress" "v_compresslevel env = lvl"
      "v_sha256 env = sha" "v_ses env = ses"
    and lv: "- 1 \<le> lvl" "lvl \<le> 9"
  shows "\<forall>a\<in>set as. a \<in> set (py_range0 n c) \<and> (a < sa \<longrightarrow> nat (a div c div 8) < length bmap) \<Longrightarrow>
     dedup_lookups (v_dedup_step env) (s_dedup st)
          (map (\<lambda>a. (sha (compress (chunk_bytes c vf a) lvl), a))
             (filter (\<lambda>a. chunk_emitted sa c bmap a \<and> \<not> chunk_zero c ((n - 1) - (n - 1) mod c) vf a) as))
          = Inr found \<Longrightarrow>
     \<exists>st'. run_loop (send_chunk env) st as = Inr st'"
proof (induction as arbitrary: st found)
  case Nil
  then show ?case by simp
next
  case (Cons a as)
  let ?lca = "(n - 1) - (n - 1) mod c"
  from Cons.prems(1) have a: "a \<in> set (py_range0 n c)"
    and bm: "a < sa \<longrightarrow> nat (a div c div 8) < length bmap"
    and rest: "\<forall>a\<in>set as. a \<in> set (py_range0 n c) \<and> (a < sa \<longrightarrow> nat (a div c div 8) < length bmap)"
    by simp_all
  note sc = send_chunk_cases[OF c a l bm e, of st]
  show ?case
  proof (cases "chunk_emitted sa c bmap a")
    case False
    with sc have s1: "send_chunk env st a = Inr (Next st)" by simp
    from Cons.prems(2) False have "dedup_lookups (v_dedup_step env) (s_dedup st)
          (map (\<lambda>a. (sha (compress (chunk_bytes c vf a) lvl), a))
             (filter (\<lambda>a. chunk_emitted sa c bmap a \<and> \<not> chunk_zero c ?lca vf a) as))
          = Inr found" by simp
    from Cons.IH[OF rest this] s1 show ?thesis by simp
  next
    case em: True
    show ?thesis
    proof (cases "chunk_zero c ?lca vf a")
      case True
      let ?st1 = "st\<lparr>s_stream_started := True,
                 s_manifest := s_manifest st
                   @ [manifest_line c ?lca vf compress lvl sha a]\<rparr>"
      from sc em True have s1: "send_chunk env st a = Inr (Next ?st1)" by simp
      from Cons.prems(2) em True have "dedup_lookups (v_dedup_step env) (s_dedup ?st1)
          (map (\<lambda>a. (sha (compress (chunk_bytes c vf a) lvl), a))
             (filter (\<lambda>a. chunk_emitted sa c bmap a \<and> \<not> chunk_zero c ?lca vf a) as))
          = Inr found" by simp
      from Cons.IH[OF rest this] s1 show ?thesis by simp
    next
      case nz: False
      from Cons.prems(2) em nz obtain idx fnd found' where
        stp: "v_dedup_step env (s_dedup st) (sha (compress (chunk_bytes c vf a) lvl)) a
              = Inr (idx, fnd)"
        and d: "dedup_lookups (v_dedup_step env) idx
          (map (\<lambda>a. (sha (compress (chunk_bytes c vf a) lvl), a))
             (filter (\<lambda>a. chunk_emitted sa c bmap a \<and> \<not> chunk_zero c ?lca vf a) as))
          = Inr found'"
        by (auto split: sum.splits)
      define st1 where "st1 = st\<lparr>s_stream_started := True,
                 s_manifest := s_manifest st @ [manifest_line c ?lca vf compress lvl sha a],
                 s_dedup := idx,
                 s_tar := s_tar st @ [chunk_entry sdir ses c vf compress lvl a fnd],
                 s_bcount := s_bcount st
                   + (if fnd = None then int (length (compress (chunk_bytes c vf a) lvl)) else 0),
                 s_ddbytes := s_ddbytes st
                   + (if fnd = None then 0 else int (length (compress (chunk_bytes c vf a) lvl)))\<rparr>"
      from sc em nz lv stp have s1: "send_chunk env st a = Inr (Next st1)"
        by (simp add: st1_def)
      have "s_dedup st1 = idx" by (simp add: st1_def)
      with d have "dedup_lookups (v_dedup_step env) (s_dedup st1)
          (map (\<lambda>a. (sha (compress (chunk_bytes c vf a) lvl), a))
             (filter (\<lambda>a. chunk_emitted sa c bmap a \<and> \<not> chunk_zero c ?lca vf a) as))
          = Inr found'" by simp
      from Cons.IH[OF rest this] s1 show ?thesis by simp
    qed
  qed
qed

lemma dedup_lookups_no_dedup:
  "dedup_lookups (no_dedup xs i) u ys = Inr (replicate (length ys) None)"
  by (induction ys arbitrary: u) (auto simp add: no_dedup_def)

lemma map2_replicate_None:
  "map2 (chunk_entry sdir ses c vf compress lvl) as (replicate (length as) None)
   = map (\<lambda>a. TarFile (chunk_path sdir a) (compress (chunk_bytes c vf a) lvl)) as"
  by (induction as) (simp_all add: chunk_entry_def)









lemma send_volume_unfold:
  assumes c: "0 < chunksize aset" and z: "compression aset = ''zlib''"
    and lv: "py_int (compr_level aset) = Inr lvl"
    and sa: "sendall_addr (length (sessions vol) = 0) snap2size (volsize vol) (chunksize aset) = Inr sa"
  shows "send_volume aset vol snap2size localtime vf mapfile compress sha256 dedup_step idx =
     run_loop
       (send_chunk
          \<lparr>v_chunksize = chunksize aset, v_sendall_addr = sa,
           v_lchunk_addr = (snap2size - 1) - (snap2size - 1) mod chunksize aset, v_vf = vf,
           v_bmap_mm = (if length (sessions vol) = 0 then [0] else mapfile),
           v_sdir = vol_name vol @ ''/'' @ ''S_'' @ localtime,
           v_ses = (vol_name vol, ''S_'' @ localtime),
           v_compress = Some compress, v_compresslevel = lvl, v_sha256 = sha256,
           v_dedup_step = dedup_step (allsessions aset @ [(vol_name vol, ''S_'' @ localtime)])
                            (int (length (allsessions aset)))\<rparr>)
       \<lparr>s_manifest = [], s_tar = [], s_stream_started = False,
        s_bcount = 0, s_ddbytes = 0, s_dedup = idx\<rparr>
       (py_range0 snap2size (chunksize aset))"
  using c unfolding send_volume_def Let_def sa lv z
  by (simp add: mapsize_def py_floordiv_def last_chunk_addr_def py_mod_def)

lemma sendall_addr_first: "sendall_addr True n p c = Inr 0"
  by (simp add: sendall_addr_def)


lemma map_covers_range:
  assumes c: "0 < c" and a: "a \<in> set (py_range0 n c)"
    and m: "n div c div 8 < int (length bmap)"
  shows "nat (a div c div 8) < length bmap"
proof -
  from py_range0_member[OF c a] have "a < n" by simp
  then have "a div c \<le> n div c" using c by (simp add: zdiv_mono1)
  then have "a div c div 8 \<le> n div c div 8" by (simp add: zdiv_mono1)
  with m have "a div c div 8 < int (length bmap)" by linarith
  moreover have "0 \<le> a div c div 8"
    using py_range0_member(1)[OF c a] c by (simp add: pos_imp_zdiv_nonneg_iff)
  ultimately show ?thesis by (simp add: nat_less_iff)
qed

lemma send_volume_result:
  assumes c: "0 < chunksize aset" and l: "length vf = nat snap2size"
    and z: "compression aset = ''zlib''" and lv: "py_int (compr_level aset) = Inr lvl"
    and m: "sessions vol \<noteq> [] \<longrightarrow> snap2size div chunksize aset div 8 < int (length mapfile)"
    and sa: "sendall_addr (length (sessions vol) = 0) snap2size (volsize vol) (chunksize aset) = Inr sa"
    and dt: "dt = filter (\<lambda>a. chunk_emitted sa (chunksize aset) mapfile a \<and>
                    \<not> chunk_zero (chunksize aset)
                        ((snap2size - 1) - (snap2size - 1) mod chunksize aset) vf a)
                  (py_range0 snap2size (chunksize aset))"
  shows "send_volume aset vol snap2size localtime vf mapfile compress sha256 dedup_step idx = Inr st'
     \<Longrightarrow>
       s_manifest st' =
         map (manifest_line (chunksize aset)
                ((snap2size - 1) - (snap2size - 1) mod chunksize aset) vf compress lvl sha256)
           (filter (chunk_emitted sa (chunksize aset) mapfile)
              (py_range0 snap2size (chunksize aset))) \<and>
       (\<exists>found.
          dedup_lookups
            (dedup_step (allsessions aset @ [(vol_name vol, ''S_'' @ localtime)])
               (int (length (allsessions aset)))) idx
            (map (\<lambda>a. (sha256 (compress (chunk_bytes (chunksize aset) vf a) lvl), a)) dt)
            = Inr found \<and>
          length found = length dt \<and>
          s_tar st' =
            map2 (chunk_entry (vol_name vol @ ''/'' @ ''S_'' @ localtime)
                    (vol_name vol, ''S_'' @ localtime) (chunksize aset) vf compress lvl)
              dt found)"
    and "- 1 \<le> lvl \<Longrightarrow> lvl \<le> 9 \<Longrightarrow>
         dedup_lookups
            (dedup_step (allsessions aset @ [(vol_name vol, ''S_'' @ localtime)])
               (int (length (allsessions aset)))) idx
            (map (\<lambda>a. (sha256 (compress (chunk_bytes (chunksize aset) vf a) lvl), a)) dt)
            = Inr found \<Longrightarrow>
         \<exists>st0. send_volume aset vol snap2size localtime vf mapfile compress sha256 dedup_step idx
                = Inr st0"
proof -
  define bmap where "bmap = (if length (sessions vol) = 0 then [0] else mapfile)"
  let ?c = "chunksize aset"
  let ?as = "py_range0 snap2size ?c"
  have sa0: "length (sessions vol) = 0 \<Longrightarrow> sa = 0"
    using sa by (simp add: sendall_addr_def)
  have rng: "\<forall>a\<in>set ?as. a \<in> set ?as \<and> (a < sa \<longrightarrow> nat (a div ?c div 8) < length bmap)"
  proof
    fix a assume a: "a \<in> set ?as"
    show "a \<in> set ?as \<and> (a < sa \<longrightarrow> nat (a div ?c div 8) < length bmap)"
    proof (cases "length (sessions vol) = 0")
      case True
      with sa0 py_range0_member(1)[OF c a] a show ?thesis by simp
    next
      case False
      with m have "snap2size div ?c div 8 < int (length mapfile)" by simp
      from map_covers_range[OF c a this] False a show ?thesis by (simp add: bmap_def)
    qed
  qed
  have em: "chunk_emitted sa ?c bmap a = chunk_emitted sa ?c mapfile a" if "a \<in> set ?as" for a
  proof (cases "length (sessions vol) = 0")
    case True
    with sa0 py_range0_member(1)[OF c that] show ?thesis by (simp add: chunk_emitted_def)
  next
    case False
    then show ?thesis by (simp add: bmap_def)
  qed
  then have f1: "filter (chunk_emitted sa ?c bmap) ?as = filter (chunk_emitted sa ?c mapfile) ?as"
    by (intro filter_cong refl) simp
  from em have f2: "filter (\<lambda>a. chunk_emitted sa ?c bmap a \<and>
                    \<not> chunk_zero ?c ((snap2size - 1) - (snap2size - 1) mod ?c) vf a) ?as
      = dt"
    unfolding dt by (intro filter_cong refl) simp
  let ?sdir = "vol_name vol @ ''/'' @ ''S_'' @ localtime"
  let ?ses = "(vol_name vol, ''S_'' @ localtime)"
  let ?lca = "(snap2size - 1) - (snap2size - 1) mod ?c"
  let ?step = "dedup_step (allsessions aset @ [(vol_name vol, ''S_'' @ localtime)])
                            (int (length (allsessions aset)))"
  let ?env = "\<lparr>v_chunksize = ?c, v_sendall_addr = sa, v_lchunk_addr = ?lca, v_vf = vf,
           v_bmap_mm = bmap, v_sdir = ?sdir, v_ses = ?ses,
           v_compress = Some compress, v_compresslevel = lvl, v_sha256 = sha256,
           v_dedup_step = ?step\<rparr>"
  let ?st0 = "\<lparr>s_manifest = [], s_tar = [], s_stream_started = False,
        s_bcount = 0, s_ddbytes = 0, s_dedup = idx\<rparr>"
  note u = send_volume_unfold[OF c z lv sa, of localtime vf mapfile compress sha256 dedup_step idx]
  {
    assume r: "send_volume aset vol snap2size localtime vf mapfile compress sha256 dedup_step idx
        = Inr st'"
    from r have rl: "run_loop (send_chunk ?env) ?st0 ?as = Inr st'"
      unfolding u bmap_def by simp
    have "s_manifest st' = s_manifest ?st0
        @ map (manifest_line ?c ?lca vf compress lvl sha256) (filter (chunk_emitted sa ?c bmap) ?as) \<and>
     (\<exists>found.
        dedup_lookups (v_dedup_step ?env) (s_dedup ?st0)
          (map (\<lambda>a. (sha256 (compress (chunk_bytes ?c vf a) lvl), a))
             (filter (\<lambda>a. chunk_emitted sa ?c bmap a \<and> \<not> chunk_zero ?c ?lca vf a) ?as))
          = Inr found \<and>
        length found
          = length (filter (\<lambda>a. chunk_emitted sa ?c bmap a \<and> \<not> chunk_zero ?c ?lca vf a) ?as) \<and>
        s_tar st' = s_tar ?st0
          @ map2 (chunk_entry ?sdir ?ses ?c vf compress lvl)
              (filter (\<lambda>a. chunk_emitted sa ?c bmap a \<and> \<not> chunk_zero ?c ?lca vf a) ?as)
              found)"
      by (rule send_loop_result[where env = ?env, OF c l _ _ _ _ _ _ _ _ _ _ rng rl]) simp_all
    then show "s_manifest st' =
         map (manifest_line ?c ?lca vf compress lvl sha256)
           (filter (chunk_emitted sa ?c mapfile) ?as) \<and>
       (\<exists>found.
          dedup_lookups ?step idx
            (map (\<lambda>a. (sha256 (compress (chunk_bytes ?c vf a) lvl), a)) dt) = Inr found \<and>
          length found = length dt \<and>
          s_tar st' = map2 (chunk_entry ?sdir ?ses ?c vf compress lvl) dt found)"
      unfolding f1 f2 by simp
  }
  {
    assume lv1: "- 1 \<le> lvl" and lv2: "lvl \<le> 9"
      and d: "dedup_lookups ?step idx
            (map (\<lambda>a. (sha256 (compress (chunk_bytes ?c vf a) lvl), a)) dt) = Inr found"
    have d': "dedup_lookups (v_dedup_step ?env) (s_dedup ?st0)
          (map (\<lambda>a. (sha256 (compress (chunk_bytes ?c vf a) lvl), a))
             (filter (\<lambda>a. chunk_emitted sa ?c bmap a \<and> \<not> chunk_zero ?c ?lca vf a) ?as))
          = Inr found"
      unfolding f2 using d by simp
    have "\<exists>st'. run_loop (send_chunk ?env) ?st0 ?as = Inr st'"
      by (rule send_loop_completes[where env = ?env and ses = ?ses and sdir = ?sdir
            and c = ?c and n = snap2size and vf = vf and sa = sa and bmap = bmap
            and compress = compress and lvl = lvl and sha = sha256 and found = found,
            OF c l _ _ _ _ _ _ _ _ _ _ lv1 lv2 rng d']) simp_all
    then show "\<exists>st0. send_volume aset vol snap2size localtime vf mapfile compress sha256 dedup_step idx
                = Inr st0"
      unfolding u bmap_def[symmetric] by simp
  }
qed



lemma send_volume_no_dedup:
  assumes c: "0 < chunksize aset" and l: "length vf = nat snap2size"
    and z: "compression aset = ''zlib''" and lv: "py_int (compr_level aset) = Inr lvl"
    and m: "sessions vol \<noteq> [] \<longrightarrow> snap2size div chunksize aset div 8 < int (length mapfile)"
    and sa: "sendall_addr (length (sessions vol) = 0) snap2size (volsize vol) (chunksize aset) = Inr sa"
    and lv1: "- 1 \<le> lvl" and lv2: "lvl \<le> 9"
  shows "\<exists>st0. send_volume aset vol snap2size localtime vf mapfile compress sha256 no_dedup ()
                = Inr st0 \<and>
           s_manifest st0 =
             map (manifest_line (chunksize aset)
                    ((snap2size - 1) - (snap2size - 1) mod chunksize aset) vf compress lvl sha256)
               (filter (chunk_emitted sa (chunksize aset) mapfile)
                  (py_range0 snap2size (chunksize aset))) \<and>
           s_tar st0 =
             map (\<lambda>a. TarFile (chunk_path (vol_name vol @ ''/'' @ ''S_'' @ localtime) a)
                         (compress (chunk_bytes (chunksize aset) vf a) lvl))
               (filter (\<lambda>a. chunk_emitted sa (chunksize aset) mapfile a \<and>
                    \<not> chunk_zero (chunksize aset)
                        ((snap2size - 1) - (snap2size - 1) mod chunksize aset) vf a)
                  (py_range0 snap2size (chunksize aset)))"
proof -
  let ?c = "chunksize aset"
  let ?lca = "(snap2size - 1) - (snap2size - 1) mod chunksize aset"
  let ?sdir = "vol_name vol @ ''/'' @ ''S_'' @ localtime"
  let ?ses = "(vol_name vol, ''S_'' @ localtime)"
  let ?als = "allsessions aset @ [(vol_name vol, ''S_'' @ localtime)]"
  let ?si = "int (length (allsessions aset))"
  let ?dg = "\<lambda>a. (sha256 (compress (chunk_bytes ?c vf a) lvl), a)"
  define dt where "dt = filter (\<lambda>a. chunk_emitted sa ?c mapfile a \<and> \<not> chunk_zero ?c ?lca vf a)
            (py_range0 snap2size ?c)"
  note R1 = send_volume_result(1)[OF c l z lv m sa dt_def]
  note R2 = send_volume_result(2)[OF c l z lv m sa dt_def]
  have d: "dedup_lookups (no_dedup ?als ?si) () (map ?dg dt)
      = Inr (replicate (length (map ?dg dt)) None)"
    by (rule dedup_lookups_no_dedup)
  from R2[where dedup_step = no_dedup and idx = "()" and compress = compress
      and ?sha256.0 = sha256 and localtime = localtime, OF lv1 lv2 d] obtain st0 where
    r: "send_volume aset vol snap2size localtime vf mapfile compress sha256 no_dedup () = Inr st0"
    by blast
  from R1[OF r] have mf: "s_manifest st0 =
         map (manifest_line ?c ?lca vf compress lvl sha256)
           (filter (chunk_emitted sa ?c mapfile) (py_range0 snap2size ?c))"
    by simp
  from R1[OF r] d have "s_tar st0 = map2 (chunk_entry ?sdir ?ses ?c vf compress lvl) dt
      (replicate (length dt) None)"
    by auto
  then have "s_tar st0 =
      map (\<lambda>a. TarFile (chunk_path ?sdir a) (compress (chunk_bytes ?c vf a) lvl)) dt"
    by (simp only: map2_replicate_None)
  with r mf show ?thesis unfolding dt_def by blast
qed

lemma py_int_4: "py_int ''4'' = Inr 4"
  by (simp add: py_int_def int_space_def is_digit_def)

lemma filter_eq_upt: "filter (\<lambda>k. k = j) [0..<n] = (if j < n then [j] else [])"
  by (induction n) auto

lemma chformat_last: "chformat 268369920 = ''000000000fff0000''"
  by (simp add: chformat_def to_hex.simps hexdigit_def chdigits_def replicate_numeral_unfold)

lemma zero_volume_chunk_zero:
  assumes "0 < c" "0 \<le> a"
  shows "chunk_zero c lca (replicate n 0) a \<longleftrightarrow> a \<noteq> lca"
  by (simp add: chunk_zero_def chunk_bytes_def list_all_iff)

lemma send_zero_volume_256:
  "\<exists>st'. send_volume new_archive_set (new_volume ''vm1'') 268435456 ''20190101-000000''
            (replicate 268435456 0) [] compress sha256 no_dedup () = Inr st' \<and>
     s_manifest st' =
       map (\<lambda>k. print2 ''0'' (CHR ''x'' # chformat (int k * 65536))) [0..<4095]
         @ [print2 (hex_of_bytes (sha256 (compress (replicate 65536 0) 4))) ''x000000000fff0000''] \<and>
     s_tar st' =
       [TarFile ''vm1/S_20190101-000000-tmp/000000000/x000000000fff0000''
          (compress (replicate 65536 0) 4)]"
proof -
  let ?vf = "replicate 268435456 (0::byte)"
  have c: "0 < chunksize new_archive_set" and cv: "chunksize new_archive_set = 65536"
    by (simp_all add: new_archive_set_def bkchunksize_val)
  have l: "length ?vf = nat 268435456" by simp
  have z: "compression new_archive_set = ''zlib''" by (simp add: new_archive_set_def)
  have lv: "py_int (compr_level new_archive_set) = Inr 4"
    by (simp add: new_archive_set_def py_int_4)
  have m: "sessions (new_volume ''vm1'') \<noteq> [] \<longrightarrow>
      268435456 div chunksize new_archive_set div 8 < int (length ([]::bytes))"
    by (simp add: new_volume_def)
  have sa: "sendall_addr (length (sessions (new_volume ''vm1'')) = 0) 268435456
      (volsize (new_volume ''vm1'')) (chunksize new_archive_set) = Inr 0"
    by (simp add: new_volume_def sendall_addr_def)
  have lca: "(268435456 - 1) - (268435456 - 1) mod 65536 = (268369920::int)"
    by simp
  have rng: "py_range0 268435456 65536 = map (\<lambda>k. int k * 65536) [0..<4096]"
    by (simp add: py_range0_def)
  have vn: "vol_name (new_volume ''vm1'') = ''vm1''" by (simp add: new_volume_def)
  have em: "chunk_emitted 0 65536 [] (int k * 65536)" for k
    by (simp add: chunk_emitted_def)
  have cz: "chunk_zero 65536 268369920 ?vf (int k * 65536) \<longleftrightarrow> k \<noteq> 4095" for k
    by (simp add: zero_volume_chunk_zero)
  have f: "filter (\<lambda>a. chunk_emitted 0 65536 [] a \<and> \<not> chunk_zero 65536 268369920 ?vf a)
        (map (\<lambda>k. int k * 65536) [0..<4096]) = [268369920]"
    by (simp add: filter_map comp_def em cz filter_eq_upt)
  have fe: "filter (chunk_emitted 0 65536 []) (map (\<lambda>k. int k * 65536) [0..<4096])
      = map (\<lambda>k. int k * 65536) [0..<4096]"
    by (simp add: filter_map comp_def em)
  from send_volume_no_dedup[OF c l z lv m sa, where localtime = "''20190101-000000''"
      and compress = compress and ?sha256.0 = sha256]
  obtain st0 where r: "send_volume new_archive_set (new_volume ''vm1'') 268435456 ''20190101-000000''
            ?vf [] compress sha256 no_dedup () = Inr st0"
    and mf: "s_manifest st0 = map (manifest_line 65536 268369920 ?vf compress 4 sha256)
       (map (\<lambda>k. int k * 65536) [0..<4096])"
    and t: "s_tar st0 = [TarFile (chunk_path ''vm1/S_20190101-000000'' 268369920)
          (compress (chunk_bytes 65536 ?vf 268369920) 4)]"
    unfolding vn cv lca rng f fe by auto
  have u: "[0..<4096] = [0..<4095] @ [4095]"
    using upt_Suc_append[of 0 4095] by simp
  have cb: "chunk_bytes 65536 ?vf 268369920 = replicate 65536 0"
    by (simp add: chunk_bytes_def)
  have ml: "manifest_line 65536 268369920 ?vf compress 4 sha256 (int k * 65536) =
      (if k \<noteq> 4095 then print2 ''0'' (CHR ''x'' # chformat (int k * 65536))
       else print2 (hex_of_bytes (sha256 (compress (replicate 65536 0) 4))) ''x000000000fff0000'')" for k
    using cb chformat_last by (simp add: manifest_line_def cz)
  have ml_last: "manifest_line 65536 268369920 ?vf compress 4 sha256 268369920 =
      print2 (hex_of_bytes (sha256 (compress (replicate 65536 0) 4))) ''x000000000fff0000''"
    using ml[of 4095] by simp
  have ml_before: "map (\<lambda>k. manifest_line 65536 268369920 ?vf compress 4 sha256 (int k * 65536))
        [0..<4095]
      = map (\<lambda>k. print2 ''0'' (CHR ''x'' # chformat (int k * 65536))) [0..<4095]"
    by (rule map_cong) (simp_all add: ml)
  have "s_manifest st0 =
       map (\<lambda>k. print2 ''0'' (CHR ''x'' # chformat (int k * 65536))) [0..<4095]
         @ [print2 (hex_of_bytes (sha256 (compress (replicate 65536 0) 4))) ''x000000000fff0000'']"
    unfolding mf u by (simp add: comp_def ml_before ml_last)
  moreover have "chunk_path ''vm1/S_20190101-000000'' 268369920
      = ''vm1/S_20190101-000000-tmp/000000000/x000000000fff0000''"
    by (simp add: chunk_path_def chformat_last address_split1_def)
  ultimately show ?thesis using r t cb by simp
qed

lemma hex_toy: "hex_of_bytes (replicate 31 0x5a @ [25])
   = ''5a5a5a5a5a5a5a5a5a5a5a5a5a5a5a5a5a5a5a5a5a5a5a5a5a5a5a5a5a5a5a19''"
  by (simp add: hex_of_bytes_def hexdigit_def replicate_numeral_unfold)

lemma toy_chunk: "toy_sha256 (stored (replicate 65536 x) lvl) = replicate 31 0x5a @ [25]"
  by (simp add: toy_sha256_def stored_def)






text \<open>
  C2, as stated, fails: the first send of an all-zero volume of 256 MiB with 64 KiB chunks
  emits one chunk file, for the final chunk at \<^verbatim>\<open>0xfff0000\<close>, and the last manifest
  line carries a digest, not \<^verbatim>\<open>0\<close>.
\<close>

theorem send_zero_volume_emits_last_chunk:
  "map_sum id s_tar
     (send_volume new_archive_set (new_volume ''vm1'') 268435456 ''20190101-000000''
        (replicate 268435456 0) [] stored toy_sha256 no_dedup ())
     = Inr [TarFile ''vm1/S_20190101-000000-tmp/000000000/x000000000fff0000'' (replicate 65536 0)] \<and>
   map_sum id (\<lambda>st. last (s_manifest st))
     (send_volume new_archive_set (new_volume ''vm1'') 268435456 ''20190101-000000''
        (replicate 268435456 0) [] stored toy_sha256 no_dedup ())
     = Inr ''5a5a5a5a5a5a5a5a5a5a5a5a5a5a5a5a5a5a5a5a5a5a5a5a5a5a5a5a5a5a5a19 x000000000fff0000\<newline>''"
proof -
  from send_zero_volume_256[of stored toy_sha256]
  obtain st' where r: "send_volume new_archive_set (new_volume ''vm1'') 268435456 ''20190101-000000''
            (replicate 268435456 0) [] stored toy_sha256 no_dedup () = Inr st'"
    and m: "s_manifest st' =
       map (\<lambda>k. print2 ''0'' (CHR ''x'' # chformat (int k * 65536))) [0..<4095]
         @ [print2 (hex_of_bytes (toy_sha256 (stored (replicate 65536 0) 4))) ''x000000000fff0000'']"
    and t: "s_tar st' =
       [TarFile ''vm1/S_20190101-000000-tmp/000000000/x000000000fff0000''
          (stored (replicate 65536 0) 4)]"
    by blast
  from m have "last (s_manifest st')
      = ''5a5a5a5a5a5a5a5a5a5a5a5a5a5a5a5a5a5a5a5a5a5a5a5a5a5a5a5a5a5a5a19 x000000000fff0000\<newline>''"
    by (simp add: toy_chunk hex_toy print2_def)
  with r t show ?thesis by (simp add: stored_def)
qed


text \<open>
  C2, amended: for an all-zero volume of 256 MiB with chunk size 64 KiB, the first send
  (without dedup) produces a manifest of 4096 lines: the first 4095 have hash \<^verbatim>\<open>0\<close>,
  and the last, for the final chunk at \<^verbatim>\<open>0xfff0000\<close>, carries the SHA-256 of the
  compressed all-zero chunk; exactly one chunk file is emitted, that of the final chunk.
\<close>

theorem send_zero_volume_first:
  "\<exists>st'. send_volume new_archive_set (new_volume ''vm1'') 268435456 ''20190101-000000''
            (replicate 268435456 0) [] compress sha256 no_dedup () = Inr st' \<and>
     length (s_manifest st') = 4096 \<and>
     s_manifest st' =
       map (\<lambda>k. print2 ''0'' (CHR ''x'' # chformat (int k * 65536))) [0..<4095]
         @ [print2 (hex_of_bytes (sha256 (compress (replicate 65536 0) 4))) ''x000000000fff0000''] \<and>
     s_tar st' =
       [TarFile ''vm1/S_20190101-000000-tmp/000000000/x000000000fff0000''
          (compress (replicate 65536 0) 4)]"
proof -
  from send_zero_volume_256 [of compress sha256]
  obtain st' where r: "send_volume new_archive_set (new_volume ''vm1'') 268435456 ''20190101-000000''
            (replicate 268435456 0) [] compress sha256 no_dedup () = Inr st'"
    and m: "s_manifest st' =
       map (\<lambda>k. print2 ''0'' (CHR ''x'' # chformat (int k * 65536))) [0..<4095]
         @ [print2 (hex_of_bytes (sha256 (compress (replicate 65536 0) 4))) ''x000000000fff0000'']"
    and t: "s_tar st' =
       [TarFile ''vm1/S_20190101-000000-tmp/000000000/x000000000fff0000''
          (compress (replicate 65536 0) 4)]"
    by blast
  from m have "length (s_manifest st') = 4096" by simp
  with r m t show ?thesis by blast
qed

end
